theory Spec2Isabelle
  imports Complex_Main "HOL-Library.Word"
begin

unbundle bit_operations_syntax

section \<open>Values of the template parameter \<open>real_type\<close>\<close>

text \<open>
  \<open>real_type\<close> is \<open>double\<close> or \<open>float\<close>. A value is a NaN, an infinity, the negative
  zero or a finite number; \<open>Finite 0\<close> is the positive zero, and \<open>Finite a\<close> is the
  number \<open>a\<close> otherwise, whether the format represents it or not.
\<close>

datatype real_type = NaN | NegInf | Finite real | NegZero | PosInf

fun sign_bit :: "real_type \<Rightarrow> bool" where
  "sign_bit NegInf = True"
| "sign_bit NegZero = True"
| "sign_bit (Finite a) = (a < 0)"
| "sign_bit _ = False"

fun is_zero :: "real_type \<Rightarrow> bool" where
  "is_zero NegZero = True"
| "is_zero (Finite a) = (a = 0)"
| "is_zero _ = False"

fun is_inf :: "real_type \<Rightarrow> bool" where
  "is_inf PosInf = True"
| "is_inf NegInf = True"
| "is_inf _ = False"

fun real_value :: "real_type \<Rightarrow> real" where
  "real_value (Finite a) = a"
| "real_value _ = 0"

definition zero_with :: "bool \<Rightarrow> real_type" where
  "zero_with negative = (if negative then NegZero else Finite 0)"

definition inf_with :: "bool \<Rightarrow> real_type" where
  "inf_with negative = (if negative then NegInf else PosInf)"

text \<open>
  Product and quotient of IEEE 754, with the rounding \<open>rnd\<close> of the result of two
  finite operands that are not zero: a NaN operand gives a NaN, \<open>0 * inf\<close>, \<open>0 / 0\<close>
  and \<open>inf / inf\<close> are NaN, \<open>x / 0\<close> is an infinity, and the sign of a zero or an
  infinity is the exclusive or of the signs of the operands.
\<close>

definition times_with :: "(real \<Rightarrow> real_type) \<Rightarrow> real_type \<Rightarrow> real_type \<Rightarrow> real_type" where
  "times_with rnd x y =
     (if x = NaN \<or> y = NaN then NaN
      else if (is_zero x \<and> is_inf y) \<or> (is_inf x \<and> is_zero y) then NaN
      else if is_inf x \<or> is_inf y then inf_with (sign_bit x \<noteq> sign_bit y)
      else if is_zero x \<or> is_zero y then zero_with (sign_bit x \<noteq> sign_bit y)
      else rnd (real_value x * real_value y))"

definition divide_with :: "(real \<Rightarrow> real_type) \<Rightarrow> real_type \<Rightarrow> real_type \<Rightarrow> real_type" where
  "divide_with rnd x y =
     (if x = NaN \<or> y = NaN then NaN
      else if (is_zero x \<and> is_zero y) \<or> (is_inf x \<and> is_inf y) then NaN
      else if is_inf x \<or> is_zero y then inf_with (sign_bit x \<noteq> sign_bit y)
      else if is_zero x \<or> is_inf y then zero_with (sign_bit x \<noteq> sign_bit y)
      else rnd (real_value x / real_value y))"

text \<open>
  The operators \<open>+\<close>, \<open>-\<close>, \<open>*\<close> and \<open>/\<close> and the comparisons \<open><\<close> and \<open><=\<close> of
  \<open>real_type\<close> are those of the samplers' loops. Comparisons and the special values
  follow IEEE 754 (a comparison with a NaN is false, the two zeros compare equal,
  \<open>inf - inf\<close> is NaN, a sum of two finite numbers that is zero is the positive
  zero unless both are the negative zero). On finite operands they are exact, with
  no rounding and no conversion between \<open>float\<close> and \<open>double\<close>: what is proved of
  the loops is which branch runs, which draws are consumed and which expression
  is returned. Where the source computes a value that is returned as such or
  decides an error, the product of \<open>gamma_deterministic\<close> and the quotient
  \<open>1 / rate\<close> of \<open>gamma_rate\<close>, the operation is the rounded one of section
  "Rounding to a format"; \<open>int_to_real\<close> is modelled with the rounding of each
  of its operations written out (section "Integer to real conversion").
\<close>

instantiation real_type :: "{zero, one, plus, minus, uminus, times, inverse, ord}"
begin

definition zero_real_type :: real_type where
  "zero_real_type = Finite 0"

definition one_real_type :: real_type where
  "one_real_type = Finite 1"

fun less_real_type :: "real_type \<Rightarrow> real_type \<Rightarrow> bool" where
  "less_real_type NaN _ = False"
| "less_real_type _ NaN = False"
| "less_real_type _ NegInf = False"
| "less_real_type NegInf _ = True"
| "less_real_type PosInf _ = False"
| "less_real_type _ PosInf = True"
| "less_real_type x y = (real_value x < real_value y)"

fun less_eq_real_type :: "real_type \<Rightarrow> real_type \<Rightarrow> bool" where
  "less_eq_real_type NaN _ = False"
| "less_eq_real_type _ NaN = False"
| "less_eq_real_type NegInf _ = True"
| "less_eq_real_type _ NegInf = False"
| "less_eq_real_type _ PosInf = True"
| "less_eq_real_type PosInf _ = False"
| "less_eq_real_type x y = (real_value x \<le> real_value y)"

fun uminus_real_type :: "real_type \<Rightarrow> real_type" where
  "uminus_real_type NaN = NaN"
| "uminus_real_type NegInf = PosInf"
| "uminus_real_type PosInf = NegInf"
| "uminus_real_type NegZero = Finite 0"
| "uminus_real_type (Finite a) = (if a = 0 then NegZero else Finite (- a))"

fun plus_real_type :: "real_type \<Rightarrow> real_type \<Rightarrow> real_type" where
  "plus_real_type NaN _ = NaN"
| "plus_real_type _ NaN = NaN"
| "plus_real_type PosInf NegInf = NaN"
| "plus_real_type NegInf PosInf = NaN"
| "plus_real_type PosInf _ = PosInf"
| "plus_real_type _ PosInf = PosInf"
| "plus_real_type NegInf _ = NegInf"
| "plus_real_type _ NegInf = NegInf"
| "plus_real_type NegZero NegZero = NegZero"
| "plus_real_type x y = Finite (real_value x + real_value y)"

definition minus_real_type :: "real_type \<Rightarrow> real_type \<Rightarrow> real_type" where
  "minus_real_type (x :: real_type) y = x + (- y)"

definition times_real_type :: "real_type \<Rightarrow> real_type \<Rightarrow> real_type" where
  "times_real_type = times_with Finite"

definition divide_real_type :: "real_type \<Rightarrow> real_type \<Rightarrow> real_type" where
  "divide_real_type = divide_with Finite"

definition inverse_real_type :: "real_type \<Rightarrow> real_type" where
  "inverse_real_type = divide_with Finite (Finite 1)"

instance ..

end

text \<open>
  The operator \<open>==\<close> of C++: a NaN is equal to nothing, itself included, and the
  two zeros are equal.
\<close>

definition eq_real_type :: "real_type \<Rightarrow> real_type \<Rightarrow> bool" where
  "eq_real_type x y \<longleftrightarrow> x \<noteq> NaN \<and> y \<noteq> NaN \<and> (x = y \<or> (is_zero x \<and> is_zero y))"

text \<open>\<open>M_PI\<close> of \<open>cmath\<close>: the double nearest to \<open>\<pi>\<close>, here \<open>\<pi>\<close> itself.\<close>

definition M_PI :: real_type where
  "M_PI = Finite pi"

section \<open>Rounding to a format\<close>

text \<open>
  A binary format of IEEE 754 is its precision \<open>p\<close> (the number of bits of the
  significand, the implicit one included) and its largest exponent \<open>emax\<close>; the
  smallest exponent of a normal number is \<open>emin = 1 - emax\<close>. \<open>float\<close> is
  \<open>binary32\<close> and \<open>double\<close> is \<open>binary64\<close>.
\<close>

record format =
  precision :: nat
  emax :: int

definition binary32 :: format where
  "binary32 = \<lparr>precision = 24, emax = 127\<rparr>"

definition binary64 :: format where
  "binary64 = \<lparr>precision = 53, emax = 1023\<rparr>"

definition emin :: "format \<Rightarrow> int" where
  "emin F = 1 - emax F"

text \<open>The number of bits of a natural number: \<open>bit_length n = k\<close> for \<open>2 ^ (k - 1) <= n < 2 ^ k\<close>.\<close>

fun bit_length :: "nat \<Rightarrow> nat" where
  "bit_length n = (if n = 0 then 0 else Suc (bit_length (n div 2)))"

declare bit_length.simps [simp del]

text \<open>
  The exponent of a positive number \<open>x\<close>, the integer \<open>e\<close> with
  \<open>2 ^ e <= x < 2 ^ (e + 1)\<close> (lemma \<open>floor_log2_bounds\<close>), read off the integer part of
  \<open>x\<close> when \<open>x >= 1\<close> and off that of \<open>1 / x\<close> below.
\<close>

definition floor_log2 :: "real \<Rightarrow> int" where
  "floor_log2 x =
     (if 1 \<le> x then int (bit_length (nat \<lfloor>x\<rfloor>)) - 1
      else - int (bit_length (nat \<lceil>1 / x\<rceil> - 1)))"

text \<open>The integer nearest to \<open>x\<close>, the even one of the two when \<open>x\<close> lies halfway.\<close>

definition round_half_even :: "real \<Rightarrow> int" where
  "round_half_even x =
     (let f = \<lfloor>x\<rfloor>; d = x - of_int f in
      if d < 1 / 2 then f else if 1 / 2 < d then f + 1 else if even f then f else f + 1)"

text \<open>
  Rounding of a magnitude \<open>x >= 0\<close> to nearest, ties to even, with an exponent that
  is bounded below only: the spacing of the format at \<open>x\<close> is \<open>2 ^ (e - p + 1)\<close> for
  the exponent \<open>e\<close> of \<open>x\<close>, and \<open>2 ^ (emin - p + 1)\<close>, that of the subnormal numbers,
  below \<open>2 ^ emin\<close>.
\<close>

definition round_magnitude :: "format \<Rightarrow> real \<Rightarrow> real" where
  "round_magnitude F x =
     (let e = max (floor_log2 x) (emin F);
          ulp = 2 powi (e - int (precision F) + 1)
      in of_int (round_half_even (x / ulp)) * ulp)"

text \<open>
  The value of the format that a finite operation with the exact result \<open>x\<close>
  returns: an infinity when the rounded magnitude reaches \<open>2 ^ (emax + 1)\<close>
  (overflow), a zero with the sign of \<open>x\<close> when it is zero (underflow).
\<close>

definition round_to_format :: "format \<Rightarrow> real \<Rightarrow> real_type" where
  "round_to_format F x =
     (let y = round_magnitude F \<bar>x\<bar> in
      if 2 powi (emax F + 1) \<le> y then inf_with (x < 0)
      else if y = 0 then zero_with (x < 0)
      else Finite (if x < 0 then - y else y))"

definition ieee_times :: "format \<Rightarrow> real_type \<Rightarrow> real_type \<Rightarrow> real_type" where
  "ieee_times F = times_with (round_to_format F)"

definition ieee_divide :: "format \<Rightarrow> real_type \<Rightarrow> real_type \<Rightarrow> real_type" where
  "ieee_divide F = divide_with (round_to_format F)"

text \<open>
  The numbers of a format: the multiples of the spacing at their exponent, below
  \<open>2 ^ (emax + 1)\<close> in magnitude.
\<close>

definition representable :: "format \<Rightarrow> real \<Rightarrow> bool" where
  "representable F x \<longleftrightarrow>
     (let e = max (floor_log2 \<bar>x\<bar>) (emin F);
          m = \<bar>x\<bar> / 2 powi (e - int (precision F) + 1)
      in of_int \<lfloor>m\<rfloor> = m \<and> \<bar>x\<bar> < 2 powi (emax F + 1))"

section \<open>Errors on the two backends (cuda\_compatibility.hpp)\<close>

text \<open>
  \<open>Device\<close> is a compilation with \<open>__CUDA_ARCH__\<close> defined, \<open>Host\<close> one without. A
  message is a format string with its arguments, not rendered.
\<close>

datatype target = Host | Device

datatype message = Message string "real_type list"

datatype failure = runtime_error message | trap message

definition fatal_error :: "target \<Rightarrow> message \<Rightarrow> failure" where
  "fatal_error t msg = (case t of Device \<Rightarrow> trap msg | Host \<Rightarrow> runtime_error msg)"

section \<open>Generator state (xoshiro\_state.hpp)\<close>

record (overloaded) 'w xoshiro_state =
  state :: "'w word list"
  deterministic :: bool

text \<open>
  The samplers call functions of headers that are not part of the sources at hand:
  \<open>random_real\<close> (generator.hpp), \<open>normal\<close> (normal.hpp), \<open>exponential_mean\<close>
  (exponential.hpp), \<open>utils::epsilon\<close> (numeric.hpp), the functions of
  \<open>monty::math\<close> (math.hpp) and those of \<open>cmath\<close>. They are parameters of the
  model, collected in one record; a function that draws takes the generator state
  and returns the updated one, and none of them throws. An environment is these
  functions instantiated at one \<open>real_type\<close>, whose format it names: a sampler
  instantiated at \<open>float\<close> and one instantiated at \<open>double\<close> run in two environments,
  on the same generator state.
\<close>

record (overloaded) 'w environment =
  real_format :: format
  random_real :: "'w xoshiro_state \<Rightarrow> real_type \<times> 'w xoshiro_state"
  normal :: "'w xoshiro_state \<Rightarrow> real_type \<Rightarrow> real_type \<Rightarrow> real_type \<times> 'w xoshiro_state"
  exponential_mean :: "'w xoshiro_state \<Rightarrow> real_type \<Rightarrow> real_type \<times> 'w xoshiro_state"
  epsilon :: real_type
  math_log :: "real_type \<Rightarrow> real_type"
  math_pow :: "real_type \<Rightarrow> real_type \<Rightarrow> real_type"
  math_tan :: "real_type \<Rightarrow> real_type"
  math_sqrt :: "real_type \<Rightarrow> real_type"
  std_sqrt :: "real_type \<Rightarrow> real_type"
  std_cos :: "real_type \<Rightarrow> real_type"

section \<open>Integer to real conversion (utils.hpp)\<close>

text \<open>
  A non-negative binary floating-point number is a pair \<open>(m, e)\<close> standing for
  \<open>m * 2 ^ e\<close>. \<open>fp_round p\<close> rounds to a significand of \<open>p\<close> bits (53 for double,
  24 for float), to nearest and ties to even, the rounding of every conversion and
  operation of the source. All values of \<open>int_to_real\<close> lie between \<open>2 ^ - 54\<close> and
  \<open>1\<close>, inside the normal range of both formats, so the exponent is not bounded
  here.
\<close>

type_synonym fp = "nat \<times> int"

definition fp_round :: "nat \<Rightarrow> fp \<Rightarrow> fp" where
  "fp_round p x =
     (let m = fst x; n = bit_length m in
      if n \<le> p then x
      else
        let s = n - p; q = m div 2 ^ s; r = m mod 2 ^ s; h = 2 ^ (s - 1) in
        (if r < h \<or> (r = h \<and> even q) then q else q + 1, snd x + int s))"

definition fp_of_uint :: "nat \<Rightarrow> nat \<Rightarrow> fp" where
  "fp_of_uint p n = fp_round p (n, 0)"

definition fp_mul :: "nat \<Rightarrow> fp \<Rightarrow> fp \<Rightarrow> fp" where
  "fp_mul p a b = fp_round p (fst a * fst b, snd a + snd b)"

definition fp_add :: "nat \<Rightarrow> fp \<Rightarrow> fp \<Rightarrow> fp" where
  "fp_add p a b =
     (let e = min (snd a) (snd b) in
      fp_round p (fst a * 2 ^ nat (snd a - e) + fst b * 2 ^ nat (snd b - e), e))"

text \<open>Division by the literal \<open>2.0\<close>: exact, one off the exponent.\<close>

definition fp_half :: "fp \<Rightarrow> fp" where
  "fp_half a = (fst a, snd a - 1)"

definition real_type_of_fp :: "fp \<Rightarrow> real_type" where
  "real_type_of_fp x = Finite (real (fst x) * 2 powi snd x)"

text \<open>
  The three macros are decimal literals; each denotes the power of two nearest to
  it in its format (lemmas \<open>TWOPOW32_INV_literal\<close>, \<open>TWOPOW32_INV_DOUBLE_literal\<close>,
  \<open>TWOPOW53_INV_DOUBLE_literal\<close>).
\<close>

definition TWOPOW32_INV :: fp where
  "TWOPOW32_INV = (1, - 32)"

definition TWOPOW32_INV_DOUBLE :: fp where
  "TWOPOW32_INV_DOUBLE = (1, - 32)"

definition TWOPOW53_INV_DOUBLE :: fp where
  "TWOPOW53_INV_DOUBLE = (1, - 53)"

definition int_to_real_double_uint64 :: "64 word \<Rightarrow> real_type" where
  "int_to_real_double_uint64 x =
     real_type_of_fp
       (fp_add 53 (fp_mul 53 (fp_of_uint 53 (unat (drop_bit 11 x))) TWOPOW53_INV_DOUBLE)
          (fp_half TWOPOW53_INV_DOUBLE))"

definition int_to_real_double_uint32 :: "32 word \<Rightarrow> real_type" where
  "int_to_real_double_uint32 x =
     real_type_of_fp
       (fp_add 53 (fp_mul 53 (fp_of_uint 53 (unat x)) TWOPOW32_INV_DOUBLE)
          (fp_half TWOPOW32_INV_DOUBLE))"

definition int_to_real_float_uint64 :: "64 word \<Rightarrow> real_type" where
  "int_to_real_float_uint64 x =
     (let t = (ucast (drop_bit 32 x) :: 32 word) in
      real_type_of_fp
        (fp_add 24 (fp_mul 24 (fp_of_uint 24 (unat t)) TWOPOW32_INV) (fp_half TWOPOW32_INV)))"

definition int_to_real_float_uint32 :: "32 word \<Rightarrow> real_type" where
  "int_to_real_float_uint32 x =
     real_type_of_fp
       (fp_add 24 (fp_mul 24 (fp_of_uint 24 (unat x)) TWOPOW32_INV) (fp_half TWOPOW32_INV))"

section \<open>Gamma sampler (gamma.hpp)\<close>

text \<open>The buffer that \<open>snprintf\<close> fills in \<open>gamma_validate\<close>.\<close>

definition gamma_message :: "real_type \<Rightarrow> real_type \<Rightarrow> message" where
  "gamma_message shape scale =
     Message ''Invalid call to gamma with shape = %g, scale = %g'' [shape, scale]"

definition gamma_validate :: "target \<Rightarrow> real_type \<Rightarrow> real_type \<Rightarrow> failure + unit" where
  "gamma_validate t shape scale =
     (if shape < Finite 0 \<or> scale < Finite 0
      then Inl (fatal_error t (gamma_message shape scale))
      else Inr ())"

text \<open>
  The body of \<open>while (true)\<close> in \<open>gamma_large\<close>, started in state \<open>st\<close>: \<open>None\<close> is a
  loop that never returns.
\<close>

partial_function (option) gamma_large_loop ::
  "'w environment \<Rightarrow> real_type \<Rightarrow> real_type \<Rightarrow> 'w xoshiro_state
     \<Rightarrow> (real_type \<times> 'w xoshiro_state) option" where
  "gamma_large_loop E d c st =
     (case normal E st 0 1 of (x, st1) \<Rightarrow>
        let v_cbrt = Finite 1 + c * x in
        if v_cbrt \<le> Finite 0 then gamma_large_loop E d c st1
        else
          let v = v_cbrt * v_cbrt * v_cbrt in
          case random_real E st1 of (u, st2) \<Rightarrow>
            let x_sqr = x * x in
            if u < Finite 1 - Finite 0.0331 * x_sqr * x_sqr \<or>
               math_log E u < Finite 0.5 * x_sqr + d * (Finite 1 - v + math_log E v)
            then Some (d * v, st2)
            else gamma_large_loop E d c st2)"

definition gamma_large ::
  "'w environment \<Rightarrow> 'w xoshiro_state \<Rightarrow> real_type \<Rightarrow> (real_type \<times> 'w xoshiro_state) option" where
  "gamma_large E st shape =
     (let d = shape - Finite 1 / Finite 3;
          c = Finite 1 / std_sqrt E (Finite 9 * d)
      in gamma_large_loop E d c st)"

text \<open>
  \<open>gamma_small\<close> is instantiated at \<open>real_type\<close> (environment \<open>E\<close>), and so are its
  uniform draw and its \<open>pow\<close>. Its call \<open>gamma_large(rng_state, shape + 1.0)\<close> names
  no template argument: the argument \<open>shape + 1.0\<close> is a \<open>double\<close>, so the call runs
  \<open>gamma_large\<close> instantiated at \<open>double\<close> (environment \<open>Ed\<close>, which is \<open>E\<close> when
  \<open>real_type\<close> is \<open>double\<close>), with the normal and uniform draws of that type. The
  product with \<open>pow\<close> is then formed in \<open>double\<close> and converted to \<open>real_type\<close> on
  return; like the roundings of the loops, the conversion is not part of the
  model.
\<close>

definition gamma_small ::
  "'w environment \<Rightarrow> 'w environment \<Rightarrow> 'w xoshiro_state \<Rightarrow> real_type
     \<Rightarrow> (real_type \<times> 'w xoshiro_state) option" where
  "gamma_small E Ed st shape =
     (let inv_shape = 1 / shape in
      case random_real E st of (u, st1) \<Rightarrow>
        (case gamma_large Ed st1 (shape + Finite 1) of
           None \<Rightarrow> None
         | Some (g, st2) \<Rightarrow> Some (g * math_pow E u inv_shape, st2)))"

text \<open>
  The product of \<open>gamma_deterministic\<close> is the value the call returns: it is the
  product of the format \<open>F\<close> of \<open>real_type\<close>, rounded.
\<close>

definition gamma_deterministic :: "format \<Rightarrow> real_type \<Rightarrow> real_type \<Rightarrow> real_type" where
  "gamma_deterministic F shape scale = ieee_times F shape scale"

definition gamma_scale ::
  "target \<Rightarrow> 'w environment \<Rightarrow> 'w environment \<Rightarrow> 'w xoshiro_state \<Rightarrow> real_type \<Rightarrow> real_type
     \<Rightarrow> (failure + real_type \<times> 'w xoshiro_state) option" where
  "gamma_scale t E Ed st shape scale =
     (case gamma_validate t shape scale of
        Inl f \<Rightarrow> Some (Inl f)
      | Inr _ \<Rightarrow>
          if eq_real_type shape 0 \<or> eq_real_type scale 0 then Some (Inr (0, st))
          else if deterministic st
          then Some (Inr (gamma_deterministic (real_format E) shape scale, st))
          else if shape < 1 then
            (case gamma_small E Ed st shape of
               None \<Rightarrow> None
             | Some (g, st') \<Rightarrow> Some (Inr (g * scale, st')))
          else if eq_real_type shape 1 then Some (Inr (exponential_mean E st scale))
          else
            (case gamma_large E st shape of
               None \<Rightarrow> None
             | Some (g, st') \<Rightarrow> Some (Inr (g * scale, st'))))"


section \<open>Cauchy sampler (cauchy.hpp)\<close>

text \<open>The test of the \<open>deterministic\<close> flag is compiled for the host only.\<close>

definition cauchy_message :: message where
  "cauchy_message =
     Message (''Can'' @ [CHR 0x27] @
       ''t use Cauchy distribution deterministically; it has no mean'') []"

definition cauchy ::
  "target \<Rightarrow> 'w environment \<Rightarrow> 'w xoshiro_state \<Rightarrow> real_type \<Rightarrow> real_type
     \<Rightarrow> failure + real_type \<times> 'w xoshiro_state" where
  "cauchy t E st location scale =
     (if t = Host \<and> deterministic st
      then Inl (runtime_error cauchy_message)
      else
        case random_real E st of (u, st1) \<Rightarrow>
          Inr (location + scale * math_tan E (M_PI * u), st1))"

section \<open>Box-Muller normal sampler (normal\_box\_muller.hpp)\<close>

text \<open>
  The \<open>do ... while (u1 <= epsilon)\<close> loop: it returns the two draws of the last
  iteration and the state after them. \<open>SYNCWARP\<close> after the loop is empty on the
  host and a barrier of the warp on the device; it changes neither the state nor
  the value.
\<close>

partial_function (option) box_muller_loop ::
  "'w environment \<Rightarrow> 'w xoshiro_state \<Rightarrow> (real_type \<times> real_type \<times> 'w xoshiro_state) option" where
  "box_muller_loop E st =
     (case random_real E st of (u1, st1) \<Rightarrow>
        case random_real E st1 of (u2, st2) \<Rightarrow>
          if u1 \<le> epsilon E then box_muller_loop E st2 else Some (u1, u2, st2))"

definition random_normal_box_muller ::
  "'w environment \<Rightarrow> 'w xoshiro_state \<Rightarrow> (real_type \<times> 'w xoshiro_state) option" where
  "random_normal_box_muller E st =
     (let two_pi = Finite 2 * M_PI in
      case box_muller_loop E st of
        None \<Rightarrow> None
      | Some (u1, u2, st') \<Rightarrow>
          Some (math_sqrt E (Finite (- 2) * math_log E u1) * std_cos E (two_pi * u2), st'))"

text \<open>
  The procedure in the words of the specification: "draw U1 rejecting U1 <= machine
  epsilon; draw U2; return sqrt(-2 ln U1) cos(2 pi U2)". Only U1 is redrawn, and U2
  is drawn once, after the loop.
\<close>

partial_function (option) draw_u1_as_specified ::
  "'w environment \<Rightarrow> 'w xoshiro_state \<Rightarrow> (real_type \<times> 'w xoshiro_state) option" where
  "draw_u1_as_specified E st =
     (case random_real E st of (u1, st1) \<Rightarrow>
        if u1 \<le> epsilon E then draw_u1_as_specified E st1 else Some (u1, st1))"

definition box_muller_as_specified ::
  "'w environment \<Rightarrow> 'w xoshiro_state \<Rightarrow> (real_type \<times> 'w xoshiro_state) option" where
  "box_muller_as_specified E st =
     (case draw_u1_as_specified E st of
        None \<Rightarrow> None
      | Some (u1, st1) \<Rightarrow>
          (case random_real E st1 of (u2, st2) \<Rightarrow>
             Some (math_sqrt E (Finite (- 2) * math_log E u1) *
                   std_cos E (Finite 2 * M_PI * u2), st2)))"

section \<open>Seeding from raw bytes (r/random.hpp)\<close>

text \<open>
  \<open>cpp11::stop\<close> with its format string and integer arguments. \<open>memcpy\<close> fills
  the vector of integers from the bytes in the byte order of the machine, taken
  little-endian here.
\<close>

datatype r_error = cpp11_stop string "nat list"

definition raw_seed_format :: string where
  "raw_seed_format =
     ''Expected raw vector of length as multiple of %d for '' @ [CHR 0x27] @ ''seed'' @
     [CHR 0x27]"

definition load_int_type :: "8 word list \<Rightarrow> 'w::len word" where
  "load_int_type bs = word_of_nat (foldr (\<lambda>b acc. unat b + 256 * acc) bs 0)"

text \<open>
  The bytes of an integer of \<open>n\<close> bytes, in the same byte order: what \<open>memcpy\<close>
  would copy out of it.
\<close>

definition store_int_type :: "nat \<Rightarrow> 'w::len word \<Rightarrow> 8 word list" where
  "store_int_type n w = map (\<lambda>j. ucast (drop_bit (8 * j) w)) [0 ..< n]"

definition raw_seed :: "nat \<Rightarrow> nat \<Rightarrow> 8 word list \<Rightarrow> r_error + 'w::len word list" where
  "raw_seed sizeof_int_type state_size seed_data =
     (let len = sizeof_int_type * state_size in
      if length seed_data = 0 \<or> length seed_data mod len \<noteq> 0
      then Inl (cpp11_stop raw_seed_format [len])
      else Inr (map (\<lambda>i. load_int_type (take sizeof_int_type (drop (i * sizeof_int_type) seed_data)))
                  [0 ..< length seed_data div sizeof_int_type]))"

section \<open>The procedures in the words of the specification\<close>

text \<open>
  One iteration of the gamma rejection loop as the specification states it: draw a
  standard normal X, compute \<open>v = (1 + c X)^3\<close>, reject if \<open>v <= 0\<close>, draw a uniform
  U, accept if \<open>U < 1 - 0.0331 X^4\<close> or \<open>ln U < X^2 / 2 + d (1 - v + ln v)\<close>, and
  return \<open>d v\<close> on acceptance. The result is the accepted value, if any, and the
  generator state after the iteration.
\<close>

definition marsaglia_tsang_iteration ::
  "'w environment \<Rightarrow> real_type \<Rightarrow> real_type \<Rightarrow> 'w xoshiro_state
     \<Rightarrow> real_type option \<times> 'w xoshiro_state" where
  "marsaglia_tsang_iteration E d c st =
     (case normal E st 0 1 of (x, st1) \<Rightarrow>
        let v = (Finite 1 + c * x) * (Finite 1 + c * x) * (Finite 1 + c * x) in
        if v \<le> Finite 0 then (None, st1)
        else
          case random_real E st1 of (u, st2) \<Rightarrow>
            if u < Finite 1 - Finite 0.0331 * (x * x) * (x * x) \<or>
               math_log E u < Finite 0.5 * (x * x) + d * (Finite 1 - v + math_log E v)
            then (Some (d * v), st2)
            else (None, st2))"

text \<open>"Repeat", at most \<open>n\<close> times: \<open>None\<close> when the first \<open>n\<close> iterations all reject.\<close>

fun marsaglia_tsang ::
  "nat \<Rightarrow> 'w environment \<Rightarrow> real_type \<Rightarrow> real_type \<Rightarrow> 'w xoshiro_state
     \<Rightarrow> (real_type \<times> 'w xoshiro_state) option" where
  "marsaglia_tsang 0 E d c st = None"
| "marsaglia_tsang (Suc n) E d c st =
     (case marsaglia_tsang_iteration E d c st of
        (Some g, st') \<Rightarrow> Some (g, st')
      | (None, st') \<Rightarrow> marsaglia_tsang n E d c st')"

text \<open>
  The state after \<open>n\<close> calls of \<open>random_real\<close>, and the value of call number \<open>n\<close>
  (counted from 0).
\<close>

fun after_draws :: "'w environment \<Rightarrow> nat \<Rightarrow> 'w xoshiro_state \<Rightarrow> 'w xoshiro_state" where
  "after_draws E 0 st = st"
| "after_draws E (Suc n) st = after_draws E n (snd (random_real E st))"

definition nth_draw :: "'w environment \<Rightarrow> nat \<Rightarrow> 'w xoshiro_state \<Rightarrow> real_type" where
  "nth_draw E n st = fst (random_real E (after_draws E n st))"

section \<open>An environment for the examples\<close>

text \<open>
  A generator of one 64-bit word that counts upwards; its uniform draws are
  \<open>2 ^ - 54\<close> (the value of \<open>int_to_real\<close> at 0, below the machine epsilon
  \<open>2 ^ - 52\<close> of double), \<open>1 / 2\<close>, \<open>1 / 4\<close> and \<open>3 / 4\<close>. The normal draw is an affine
  image of a uniform one, and the mathematical functions are those of the reals on
  finite arguments.
\<close>

definition example_uniform :: "64 word list \<Rightarrow> real_type" where
  "example_uniform ws =
     (case ws of
        [] \<Rightarrow> Finite (1 / 2)
      | w # _ \<Rightarrow>
          if w = 0 then Finite (1 / 2 ^ 54)
          else if w = 1 then Finite (1 / 2)
          else if w = 2 then Finite (1 / 4)
          else Finite (3 / 4))"

definition example_random_real :: "64 xoshiro_state \<Rightarrow> real_type \<times> 64 xoshiro_state" where
  "example_random_real st =
     (example_uniform (state st), st\<lparr>state := map (\<lambda>w. w + 1) (state st)\<rparr>)"

definition example_normal ::
  "64 xoshiro_state \<Rightarrow> real_type \<Rightarrow> real_type \<Rightarrow> real_type \<times> 64 xoshiro_state" where
  "example_normal st mean sd =
     (case example_random_real st of (u, st') \<Rightarrow> (mean + sd * (Finite 8 * u - Finite 4), st'))"

definition example_log :: "real_type \<Rightarrow> real_type" where
  "example_log x =
     (case x of
        Finite a \<Rightarrow> if 0 < a then Finite (ln a) else if a = 0 then NegInf else NaN
      | NegZero \<Rightarrow> NegInf
      | PosInf \<Rightarrow> PosInf
      | _ \<Rightarrow> NaN)"

definition example_sqrt :: "real_type \<Rightarrow> real_type" where
  "example_sqrt x =
     (case x of
        Finite a \<Rightarrow> if 0 \<le> a then Finite (sqrt a) else NaN
      | NegZero \<Rightarrow> NegZero
      | PosInf \<Rightarrow> PosInf
      | _ \<Rightarrow> NaN)"

definition example_pow :: "real_type \<Rightarrow> real_type \<Rightarrow> real_type" where
  "example_pow x y =
     (case (x, y) of
        (Finite a, Finite b) \<Rightarrow> if 0 < a then Finite (a powr b) else NaN
      | _ \<Rightarrow> NaN)"

definition example_exponential_mean ::
  "64 xoshiro_state \<Rightarrow> real_type \<Rightarrow> real_type \<times> 64 xoshiro_state" where
  "example_exponential_mean st mean =
     (case example_random_real st of (u, st') \<Rightarrow> (- (mean * example_log u), st'))"

definition example_env :: "64 environment" where
  "example_env =
     \<lparr>real_format = binary64,
      random_real = example_random_real,
      normal = example_normal,
      exponential_mean = example_exponential_mean,
      epsilon = Finite (1 / 2 ^ 52),
      math_log = example_log,
      math_pow = example_pow,
      math_tan = (\<lambda>x. case x of Finite a \<Rightarrow> Finite (tan a) | _ \<Rightarrow> NaN),
      math_sqrt = example_sqrt,
      std_sqrt = example_sqrt,
      std_cos = (\<lambda>x. case x of Finite a \<Rightarrow> Finite (cos a) | _ \<Rightarrow> NaN)\<rparr>"

text \<open>
  The same generator read at \<open>float\<close>: the first uniform draw is \<open>2 ^ - 33\<close> (the value
  of \<open>int_to_real\<close> at 0, below the machine epsilon \<open>2 ^ - 23\<close> of float), and the
  normal sampler consumes two draws.
\<close>

definition example_random_real_float :: "64 xoshiro_state \<Rightarrow> real_type \<times> 64 xoshiro_state" where
  "example_random_real_float st =
     (case example_random_real st of
        (u, st') \<Rightarrow> (if u = Finite (1 / 2 ^ 54) then Finite (1 / 2 ^ 33) else u, st'))"

definition example_normal_float ::
  "64 xoshiro_state \<Rightarrow> real_type \<Rightarrow> real_type \<Rightarrow> real_type \<times> 64 xoshiro_state" where
  "example_normal_float st mean sd =
     (case example_random_real_float st of
        (u, st') \<Rightarrow>
          (mean + sd * (Finite 8 * u - Finite 4), snd (example_random_real_float st')))"

definition example_env_float :: "64 environment" where
  "example_env_float =
     example_env
       \<lparr>real_format := binary32,
        random_real := example_random_real_float,
        normal := example_normal_float,
        epsilon := Finite (1 / 2 ^ 23)\<rparr>"

definition example_state :: "64 word \<Rightarrow> bool \<Rightarrow> 64 xoshiro_state" where
  "example_state w det = \<lparr>state = [w], deterministic = det\<rparr>"

section \<open>Facts about \<open>real_type\<close>\<close>

lemma zero_with_simps [simp]: "zero_with True = NegZero" "zero_with False = Finite 0"
  by (simp_all add: zero_with_def)

lemma inf_with_simps [simp]: "inf_with True = NegInf" "inf_with False = PosInf"
  by (simp_all add: inf_with_def)

lemma times_with_simps:
  "times_with rnd NaN y = NaN"
  "times_with rnd x NaN = NaN"
  "times_with rnd (Finite a) (Finite b) =
     (if a = 0 \<or> b = 0 then zero_with ((a < 0) \<noteq> (b < 0)) else rnd (a * b))"
  "times_with rnd (Finite a) PosInf = (if a = 0 then NaN else inf_with (a < 0))"
  "times_with rnd PosInf (Finite a) = (if a = 0 then NaN else inf_with (a < 0))"
  "times_with rnd (Finite a) NegInf = (if a = 0 then NaN else inf_with (\<not> a < 0))"
  "times_with rnd NegInf (Finite a) = (if a = 0 then NaN else inf_with (\<not> a < 0))"
  "times_with rnd (Finite a) NegZero = zero_with (\<not> a < 0)"
  "times_with rnd NegZero (Finite a) = zero_with (\<not> a < 0)"
  "times_with rnd NegZero NegZero = Finite 0"
  "times_with rnd PosInf PosInf = PosInf"
  "times_with rnd PosInf NegInf = NegInf"
  "times_with rnd NegInf PosInf = NegInf"
  "times_with rnd NegInf NegInf = PosInf"
  "times_with rnd NegZero PosInf = NaN"
  "times_with rnd PosInf NegZero = NaN"
  "times_with rnd NegZero NegInf = NaN"
  "times_with rnd NegInf NegZero = NaN"
  by (simp_all add: times_with_def)

lemma divide_with_simps:
  "divide_with rnd NaN y = NaN"
  "divide_with rnd x NaN = NaN"
  "divide_with rnd (Finite a) (Finite b) =
     (if b = 0 then (if a = 0 then NaN else inf_with (a < 0))
      else if a = 0 then zero_with (b < 0)
      else rnd (a / b))"
  "divide_with rnd (Finite a) NegZero = (if a = 0 then NaN else inf_with (\<not> a < 0))"
  "divide_with rnd NegZero (Finite b) = (if b = 0 then NaN else zero_with (\<not> b < 0))"
  "divide_with rnd (Finite a) PosInf = zero_with (a < 0)"
  "divide_with rnd (Finite a) NegInf = zero_with (\<not> a < 0)"
  "divide_with rnd PosInf (Finite b) = inf_with (b < 0)"
  "divide_with rnd NegInf (Finite b) = inf_with (\<not> b < 0)"
  "divide_with rnd NegZero NegZero = NaN"
  "divide_with rnd NegZero PosInf = NegZero"
  "divide_with rnd NegZero NegInf = Finite 0"
  "divide_with rnd PosInf NegZero = NegInf"
  "divide_with rnd NegInf NegZero = PosInf"
  "divide_with rnd PosInf PosInf = NaN"
  "divide_with rnd PosInf NegInf = NaN"
  "divide_with rnd NegInf PosInf = NaN"
  "divide_with rnd NegInf NegInf = NaN"
  by (auto simp: divide_with_def)

lemmas times_real_type_simps [simp] = times_with_simps [of Finite, folded times_real_type_def]

lemmas divide_real_type_simps [simp] = divide_with_simps [of Finite, folded divide_real_type_def]

lemma zero_le_not_less: "Finite 0 \<le> x \<Longrightarrow> \<not> x < Finite 0"
  by (cases x) auto

lemma one_less_cases:
  "1 < x \<Longrightarrow> \<not> x < 1 \<and> \<not> eq_real_type x 1 \<and> \<not> eq_real_type x 0" for x :: real_type
  by (cases x) (auto simp: one_real_type_def eq_real_type_def zero_real_type_def)

text \<open>The sign of a cube is the sign of its root, also at the zeros, the infinities and NaN.\<close>

lemma cube_le_zero: "x * x * x \<le> Finite 0 \<longleftrightarrow> x \<le> Finite 0" for x :: real_type
proof (cases x)
  case (Finite a)
  have "a * a * a \<le> 0 \<longleftrightarrow> a \<le> 0"
    by (metis mult_le_0_iff mult_nonneg_nonneg mult_nonpos_nonpos linorder_le_cases
        zero_le_square dual_order.antisym mult_eq_0_iff)
  then show ?thesis using Finite by simp
qed simp_all

lemma sqrt_9: "sqrt 9 = 3"
  using real_sqrt_abs [of 3] by simp

section \<open>Bits and exponents\<close>

lemma bit_length_0: "bit_length 0 = 0"
  by (subst bit_length.simps) simp

lemma bit_length_1: "bit_length 1 = 1"
  by (subst bit_length.simps) (simp add: bit_length_0)

lemma bit_length_Suc_0: "bit_length (Suc 0) = Suc 0"
  using bit_length_1 by simp

lemma bit_length_Bit0: "bit_length (numeral (Num.Bit0 k)) = bit_length (numeral k) + 1"
  by (subst bit_length.simps) simp

lemma bit_length_Bit1: "bit_length (numeral (Num.Bit1 k)) = bit_length (numeral k) + 1"
  by (subst bit_length.simps) simp

lemmas bit_length_numeral =
  bit_length_0 bit_length_1 bit_length_Suc_0 bit_length_Bit0 bit_length_Bit1

lemma bit_length_le: "n < 2 ^ k \<Longrightarrow> bit_length n \<le> k"
proof (induction k arbitrary: n)
  case 0
  then show ?case by (subst bit_length.simps) simp
next
  case (Suc k)
  show ?case
  proof (cases "n = 0")
    case True
    then show ?thesis by (subst bit_length.simps) simp
  next
    case False
    from Suc.prems have "n div 2 < 2 ^ k" by simp
    then have "bit_length (n div 2) \<le> k" by (rule Suc.IH)
    with False show ?thesis by (subst bit_length.simps) simp
  qed
qed

lemma bit_length_gt: "2 ^ k \<le> n \<Longrightarrow> k < bit_length n"
proof (induction k arbitrary: n)
  case 0
  then show ?case by (subst bit_length.simps) simp
next
  case (Suc k)
  then have "2 ^ k \<le> n div 2" by simp
  then have "k < bit_length (n div 2)" by (rule Suc.IH)
  moreover have "n \<noteq> 0"
  proof
    assume "n = 0"
    with Suc.prems show False by simp
  qed
  ultimately show ?case by (subst bit_length.simps) simp
qed

lemma bit_length_eq: "2 ^ k \<le> n \<Longrightarrow> n < 2 ^ Suc k \<Longrightarrow> bit_length n = Suc k"
  using bit_length_gt [of k n] bit_length_le [of n "Suc k"] by simp

lemma bit_length_bounds:
  assumes "0 < n"
  shows "0 < bit_length n" and "2 ^ (bit_length n - 1) \<le> n" and "n < 2 ^ bit_length n"
proof -
  show pos: "0 < bit_length n"
    using bit_length_gt [of 0 n] assms by simp
  show "n < 2 ^ bit_length n"
  proof (rule ccontr)
    assume "\<not> n < 2 ^ bit_length n"
    then have "2 ^ bit_length n \<le> n" by simp
    from bit_length_gt [OF this] show False by simp
  qed
  show "2 ^ (bit_length n - 1) \<le> n"
  proof (rule ccontr)
    assume "\<not> 2 ^ (bit_length n - 1) \<le> n"
    then have "n < 2 ^ (bit_length n - 1)" by simp
    from bit_length_le [OF this] pos show False by simp
  qed
qed

lemma two_power_le_real: "2 ^ k \<le> n \<Longrightarrow> (2::real) ^ k \<le> real n"
  using of_nat_le_iff [of "2 ^ k" n, where ?'a = real] by simp

lemma le_two_power_real: "n \<le> 2 ^ k \<Longrightarrow> real n \<le> 2 ^ k"
  using of_nat_le_iff [of n "2 ^ k", where ?'a = real] by simp

text \<open>\<open>floor_log2 x\<close> is the exponent of \<open>x\<close>.\<close>

lemma floor_log2_bounds:
  assumes "0 < x"
  shows "2 powi floor_log2 x \<le> x" and "x < 2 powi (floor_log2 x + 1)"
proof -
  have "2 powi floor_log2 x \<le> x \<and> x < 2 powi (floor_log2 x + 1)"
  proof (cases "1 \<le> x")
    case True
    define n where "n = nat \<lfloor>x\<rfloor>"
    define k where "k = bit_length n"
    have n: "real n \<le> x" "x < real n + 1" "0 < n"
      using True by (simp_all add: n_def)
    note b = bit_length_bounds [OF n(3), folded k_def]
    have e: "floor_log2 x = int (k - 1)"
      using True b(1) by (simp add: floor_log2_def n_def k_def of_nat_diff)
    have e1: "floor_log2 x + 1 = int k"
      using e b(1) by simp
    have lo: "2 ^ (k - 1) \<le> x"
      using two_power_le_real [OF b(2)] n(1) by linarith
    have "n + 1 \<le> 2 ^ k" using b(3) by simp
    then have hi: "x < 2 ^ k"
      using le_two_power_real [of "n + 1" k] n(2) by simp
    show ?thesis
      unfolding e1 unfolding e using lo hi by simp
  next
    case False
    define y where "y = 1 / x"
    define m where "m = nat \<lceil>y\<rceil>"
    define k where "k = bit_length (m - 1)"
    have y: "1 < y"
      using False assms by (simp add: y_def)
    have m: "y \<le> real m" "real m < y + 1" "1 < m"
      using y by (simp_all add: m_def) linarith+
    then have "0 < m - 1" by simp
    note b = bit_length_bounds [OF this, folded k_def]
    have e: "floor_log2 x = - int k"
      using False by (simp add: floor_log2_def y_def m_def k_def)
    have "m \<le> 2 ^ k" using b(3) by simp
    then have yk: "y \<le> 2 ^ k"
      using le_two_power_real [of m k] m(1) by linarith
    have "real (m - 1) = real m - 1"
      using m(3) by (simp add: of_nat_diff)
    then have ky: "2 ^ (k - 1) < y"
      using two_power_le_real [OF b(2)] m(2) by linarith
    have x: "x = 1 / y"
      using assms by (simp add: y_def)
    have lo: "1 / 2 ^ k \<le> x"
      unfolding x using yk y by (simp add: frac_le)
    have hi: "x < 1 / 2 ^ (k - 1)"
      unfolding x using ky y by (simp add: frac_less2)
    have p1: "(2::real) powi (- int k) = 1 / 2 ^ k"
      by (simp add: power_int_minus field_simps)
    have "- int k + 1 = - int (k - 1)"
      using b(1) by simp
    then have "(2::real) powi (- int k + 1) = 2 powi (- int (k - 1))"
      by (simp only:)
    also have "\<dots> = 1 / 2 ^ (k - 1)"
      by (simp add: power_int_minus field_simps)
    finally have p2: "(2::real) powi (- int k + 1) = 1 / 2 ^ (k - 1)" .
    show ?thesis
      unfolding e p1 p2 using lo hi by simp
  qed
  then show "2 powi floor_log2 x \<le> x" and "x < 2 powi (floor_log2 x + 1)"
    by simp_all
qed

lemma floor_log2_eq:
  assumes "2 powi k \<le> x" and "x < 2 powi (k + 1)"
  shows "floor_log2 x = k"
proof -
  have "0 < (2::real) powi k" by simp
  with assms(1) have pos: "0 < x" by linarith
  note b = floor_log2_bounds [OF pos]
  have "\<not> floor_log2 x < k"
  proof
    assume "floor_log2 x < k"
    then have "floor_log2 x + 1 \<le> k" by simp
    then have "(2::real) powi (floor_log2 x + 1) \<le> 2 powi k"
      by (intro power_int_increasing) simp_all
    with b(2) assms(1) show False by linarith
  qed
  moreover have "\<not> k < floor_log2 x"
  proof
    assume "k < floor_log2 x"
    then have "k + 1 \<le> floor_log2 x" by simp
    then have "(2::real) powi (k + 1) \<le> 2 powi floor_log2 x"
      by (intro power_int_increasing) simp_all
    with b(1) assms(2) show False by linarith
  qed
  ultimately show ?thesis by simp
qed

section \<open>Rounding\<close>

lemma round_half_even_of_int: "round_half_even (of_int n) = n"
  by (simp add: round_half_even_def)

text \<open>A number of the format is returned as it is.\<close>

lemma round_to_format_representable:
  assumes "representable F x"
  shows "round_to_format F x = Finite x"
proof -
  define ulp :: real where
    "ulp = 2 powi (max (floor_log2 \<bar>x\<bar>) (emin F) - int (precision F) + 1)"
  have ulp: "0 < ulp" by (simp add: ulp_def)
  from assms have int: "of_int \<lfloor>\<bar>x\<bar> / ulp\<rfloor> = \<bar>x\<bar> / ulp"
    and range: "\<bar>x\<bar> < 2 powi (emax F + 1)"
    by (simp_all add: representable_def Let_def ulp_def)
  have "round_half_even (\<bar>x\<bar> / ulp) = \<lfloor>\<bar>x\<bar> / ulp\<rfloor>"
    using round_half_even_of_int [of "\<lfloor>\<bar>x\<bar> / ulp\<rfloor>"] unfolding int .
  then have "round_magnitude F \<bar>x\<bar> = of_int \<lfloor>\<bar>x\<bar> / ulp\<rfloor> * ulp"
    by (simp add: round_magnitude_def Let_def ulp_def)
  also have "\<dots> = \<bar>x\<bar>"
    unfolding int using ulp by simp
  finally have m: "round_magnitude F \<bar>x\<bar> = \<bar>x\<bar>" .
  show ?thesis
    using range by (simp add: round_to_format_def Let_def m)
qed

lemmas round_defs =
  round_to_format_def round_magnitude_def round_half_even_def floor_log2_def representable_def
  binary64_def binary32_def emin_def Let_def power_int_minus

lemma round_half_even_nonneg: "0 \<le> y \<Longrightarrow> 0 \<le> round_half_even y"
  by (simp add: round_half_even_def Let_def)






lemma round_half_even_bounds: "\<lfloor>y\<rfloor> \<le> round_half_even y" "round_half_even y \<le> \<lceil>y\<rceil>"
proof -
  show "\<lfloor>y\<rfloor> \<le> round_half_even y"
    by (simp add: round_half_even_def Let_def)
  have "\<lfloor>y\<rfloor> + 1 = \<lceil>y\<rceil>" if "0 < y - of_int \<lfloor>y\<rfloor>"
    using that by (simp add: ceiling_altdef)
  moreover have "\<lfloor>y\<rfloor> \<le> \<lceil>y\<rceil>"
    by (rule floor_le_ceiling)
  ultimately show "round_half_even y \<le> \<lceil>y\<rceil>"
    by (auto simp: round_half_even_def Let_def)
qed

lemma round_half_even_ge:
  assumes "of_int n \<le> y"
  shows "n \<le> round_half_even y"
proof -
  from assms have "n \<le> \<lfloor>y\<rfloor>" by (simp add: le_floor_iff)
  with round_half_even_bounds(1) [of y] show ?thesis by linarith
qed

lemma round_half_even_le:
  assumes "y \<le> of_int n"
  shows "round_half_even y \<le> n"
proof -
  from assms have "\<lceil>y\<rceil> \<le> n" by (simp add: ceiling_le_iff)
  with round_half_even_bounds(2) [of y] show ?thesis by linarith
qed

text \<open>The rounded integer is within one half of the number.\<close>

lemma round_half_even_nearest: "\<bar>of_int (round_half_even y) - y\<bar> \<le> 1 / 2"
proof -
  define f where "f = \<lfloor>y\<rfloor>"
  define d where "d = y - of_int f"
  have d: "0 \<le> d" "d < 1"
    unfolding d_def f_def by linarith+
  have r: "round_half_even y =
      (if d < 1 / 2 then f else if 1 / 2 < d then f + 1 else if even f then f else f + 1)"
    by (simp add: round_half_even_def Let_def f_def d_def)
  have "of_int (round_half_even y) - y =
      (if d < 1 / 2 then - d else if 1 / 2 < d then 1 - d else if even f then - d else 1 - d)"
    unfolding r by (simp add: d_def)
  then show ?thesis
    using d by (auto simp: abs_if)
qed

text \<open>
  The rounded magnitude is within half the spacing of the format at \<open>x\<close> of \<open>x\<close>.
\<close>

lemma round_magnitude_nearest:
  "\<bar>round_magnitude F x - x\<bar> \<le>
     2 powi (max (floor_log2 x) (emin F) - int (precision F) + 1) / 2"
proof -
  define ulp :: real where "ulp = 2 powi (max (floor_log2 x) (emin F) - int (precision F) + 1)"
  have ulp: "0 < ulp" by (simp add: ulp_def)
  have "round_magnitude F x - x = (of_int (round_half_even (x / ulp)) - x / ulp) * ulp"
    unfolding round_magnitude_def Let_def ulp_def [symmetric]
    using ulp by (simp add: field_simps)
  then have "\<bar>round_magnitude F x - x\<bar> = \<bar>of_int (round_half_even (x / ulp)) - x / ulp\<bar> * ulp"
    using ulp by (simp add: abs_mult)
  also have "\<dots> \<le> 1 / 2 * ulp"
    using round_half_even_nearest [of "x / ulp"] ulp by (intro mult_right_mono) simp_all
  finally show ?thesis
    by (simp add: ulp_def)
qed

text \<open>A finite value that the rounding returns is a number of the format.\<close>

lemma round_magnitude_representable:
  assumes p: "0 < precision F" and x: "0 < x" and r: "round_magnitude F x < 2 powi (emax F + 1)"
  shows "representable F (round_magnitude F x)"
proof -
  define e where "e = max (floor_log2 x) (emin F)"
  define q where "q = e - int (precision F) + 1"
  define K where "K = round_half_even (x / 2 powi q)"
  define y where "y = round_magnitude F x"
  have y: "y = of_int K * 2 powi q"
    by (simp add: y_def round_magnitude_def Let_def K_def q_def e_def)
  have q: "0 < (2::real) powi q" by simp
  have e_min: "emin F \<le> e" by (simp add: e_def)
  have pp: "int (precision F) - 1 = int (precision F - 1)"
    using p by simp
  have two_p: "(2::real) powi (e + 1) = 2 ^ precision F * 2 powi q"
  proof -
    have "e + 1 = int (precision F) + q" by (simp add: q_def)
    then show ?thesis by (simp add: power_int_add)
  qed
  have two_p1: "(2::real) powi e = 2 ^ (precision F - 1) * 2 powi q"
  proof -
    have "e = int (precision F - 1) + q" using p by (simp add: q_def)
    then have "(2::real) powi e = 2 powi (int (precision F - 1) + q)" by simp
    also have "\<dots> = 2 ^ (precision F - 1) * 2 powi q"
      by (simp add: power_int_add)
    finally show ?thesis .
  qed
  have "x < 2 powi (floor_log2 x + 1)"
    by (rule floor_log2_bounds(2) [OF x])
  also have "\<dots> \<le> 2 powi (e + 1)"
    by (intro power_int_increasing) (simp_all add: e_def)
  finally have "x / 2 powi q < 2 ^ precision F"
    unfolding two_p using q by (simp add: field_simps)
  then have "x / 2 powi q \<le> of_int (2 ^ precision F)"
    by simp
  then have K_le: "K \<le> 2 ^ precision F"
    unfolding K_def by (rule round_half_even_le)
  have K_ge: "0 \<le> K"
    unfolding K_def using x q by (intro round_half_even_nonneg) simp
  have ynn: "0 \<le> y" unfolding y using K_ge q by simp
  have goal: "of_int \<lfloor>y / 2 powi (max (floor_log2 y) (emin F) - int (precision F) + 1)\<rfloor> =
      y / 2 powi (max (floor_log2 y) (emin F) - int (precision F) + 1)"
  proof (cases "K = 0 \<or> K = 2 ^ precision F")
    case True
    show ?thesis
    proof (cases "K = 0")
      case True
      then show ?thesis by (simp add: y)
    next
      case False
      with \<open>K = 0 \<or> K = 2 ^ precision F\<close> have "K = 2 ^ precision F" by simp
      then have ye: "y = 2 powi (e + 1)"
      unfolding y two_p by simp
    moreover have "(2::real) powi (e + 1) < 2 powi (e + 1 + 1)"
      by (intro power_int_strict_increasing) simp_all
    ultimately have "floor_log2 y = e + 1"
      by (intro floor_log2_eq) simp_all
    then have m: "max (floor_log2 y) (emin F) - int (precision F) + 1 = q + 1"
      using e_min by (simp add: q_def)
    have "y / 2 powi (q + 1) = 2 ^ (precision F - 1)"
    proof -
      have ee: "e + 1 = int (precision F - 1) + (q + 1)" using p by (simp add: q_def)
      have "(2::real) powi (e + 1) = 2 powi (int (precision F - 1) + (q + 1))"
        by (simp only: ee)
      also have "\<dots> = 2 ^ (precision F - 1) * 2 powi (q + 1)"
        by (subst power_int_add) simp_all
      finally show ?thesis unfolding ye by simp
    qed
    then have "y / 2 powi (q + 1) = of_int (2 ^ (precision F - 1))" by simp
    then show ?thesis unfolding m by (simp only: floor_of_int)
    qed
  next
    case False
    then have "K < 2 ^ precision F" using K_le by simp
    then have "real_of_int K < real_of_int (2 ^ precision F)"
      by (simp only: of_int_less_iff)
    then have "real_of_int K < 2 ^ precision F" by simp
    then have "real_of_int K * 2 powi q < 2 ^ precision F * 2 powi q"
      using q by (simp only: mult_less_cancel_right_pos)
    then have y_lt: "y < 2 powi (e + 1)"
      unfolding y two_p .
    have "max (floor_log2 y) (emin F) = e"
    proof (cases "emin F \<le> floor_log2 x")
      case True
      then have e: "e = floor_log2 x" by (simp add: e_def)
      have "2 powi e \<le> x"
        unfolding e by (rule floor_log2_bounds(1) [OF x])
      then have "of_int (2 ^ (precision F - 1)) \<le> x / 2 powi q"
        unfolding two_p1 using q by (simp add: field_simps)
      then have "2 ^ (precision F - 1) \<le> K"
        unfolding K_def by (rule round_half_even_ge)
      then have "(of_int (2 ^ (precision F - 1)) :: real) \<le> of_int K"
        by (simp only: of_int_le_iff)
      then have "2 powi e \<le> y"
        unfolding y two_p1 using q by simp
      then have "floor_log2 y = e"
        using y_lt by (rule floor_log2_eq)
      then show ?thesis using e_min by simp
    next
      case False
      then have e: "e = emin F" by (simp add: e_def)
      have "0 < K" using K_ge \<open>\<not> (K = 0 \<or> K = 2 ^ precision F)\<close> by simp
      then have "0 < y" unfolding y using q by simp
      have "\<not> e < floor_log2 y"
      proof
        assume "e < floor_log2 y"
        then have "e + 1 \<le> floor_log2 y" by simp
        then have "(2::real) powi (e + 1) \<le> 2 powi floor_log2 y"
          by (intro power_int_increasing) simp_all
        also have "\<dots> \<le> y"
          by (rule floor_log2_bounds(1) [OF \<open>0 < y\<close>])
        finally show False using y_lt by simp
      qed
      then show ?thesis unfolding e by simp
    qed
    then have m: "max (floor_log2 y) (emin F) - int (precision F) + 1 = q"
      by (simp add: q_def)
    have "y / 2 powi q = of_int K"
      unfolding y using q by simp
    then show ?thesis unfolding m by (simp only: floor_of_int)
  qed
  show ?thesis
    using goal r ynn unfolding representable_def Let_def y_def [symmetric] by simp
qed

lemma representable_abs: "representable F \<bar>x\<bar> = representable F x"
  by (simp add: representable_def)

lemma representable_minus: "representable F (- x) = representable F x"
  by (simp add: representable_def)

lemma representable_zero: "representable F 0"
  by (simp add: representable_def)

lemma round_to_format_Finite:
  assumes "round_to_format F x = Finite y"
  shows "round_magnitude F \<bar>x\<bar> < 2 powi (emax F + 1)"
    and "y = (if x < 0 then - round_magnitude F \<bar>x\<bar> else round_magnitude F \<bar>x\<bar>)"
  using assms
  by (auto simp: round_to_format_def Let_def inf_with_def zero_with_def split: if_splits)

lemma round_to_format_in_format:
  assumes p: "0 < precision F" and r: "round_to_format F x = Finite y"
  shows "representable F y"
proof (cases "x = 0")
  case True
  then have "y = 0"
    using round_to_format_Finite(2) [OF r]
    by (simp add: round_magnitude_def round_half_even_def)
  then show ?thesis by (simp add: representable_zero)
next
  case False
  then have "0 < \<bar>x\<bar>" by simp
  note rep = round_magnitude_representable [OF p this round_to_format_Finite(1) [OF r]]
  show ?thesis
    unfolding round_to_format_Finite(2) [OF r] using rep
    by (cases "x < 0") (simp_all add: representable_minus)
qed

lemma round_to_format_nearest:
  assumes "round_to_format F x = Finite y"
  shows "\<bar>y - x\<bar> \<le> 2 powi (max (floor_log2 \<bar>x\<bar>) (emin F) - int (precision F) + 1) / 2"
proof -
  have "\<bar>y - x\<bar> = \<bar>round_magnitude F \<bar>x\<bar> - \<bar>x\<bar>\<bar>"
    unfolding round_to_format_Finite(2) [OF assms] by (simp add: abs_if)
  then show ?thesis
    using round_magnitude_nearest [of F "\<bar>x\<bar>"] by simp
qed

text \<open>
  Ties, subnormal numbers and overflow in float: \<open>2 ^ 24 + 1\<close> and \<open>2 ^ 24 + 3\<close> lie
  halfway between two floats; \<open>2 ^ - 149\<close> is the smallest positive float; the
  largest is \<open>2 ^ 128 - 2 ^ 104\<close>. The doubles nearest to \<open>1 / 3\<close> and \<open>1 / 10\<close>.
\<close>

lemma round_to_format_examples:
  "round_to_format binary32 16777217 = Finite 16777216"
  "round_to_format binary32 16777219 = Finite 16777220"
  "round_to_format binary32 (1 / 2 ^ 150) = Finite 0"
  "round_to_format binary32 (- (1 / 2 ^ 150)) = NegZero"
  "round_to_format binary32 (3 / 2 ^ 150) = Finite (1 / 2 ^ 148)"
  "round_to_format binary32 (2 ^ 128 - 2 ^ 103 - 1) = Finite (2 ^ 128 - 2 ^ 104)"
  "round_to_format binary32 (2 ^ 128 - 2 ^ 103) = PosInf"
  "round_to_format binary64 (1 / 3) = Finite (6004799503160661 / 2 ^ 54)"
  "round_to_format binary64 (1 / 10) = Finite (3602879701896397 / 2 ^ 55)"
  by (simp_all add: round_defs bit_length_numeral)

section \<open>The example environment, evaluated\<close>

lemma example_state_simps:
  "deterministic (example_state w det) = det"
  "state (example_state w det) = [w]"
  by (simp_all add: example_state_def)

lemma example_random_real_simps:
  "example_random_real (example_state w det) =
     (example_uniform [w], example_state (w + 1) det)"
  by (simp add: example_random_real_def example_state_def)

lemma example_uniform_simps:
  "example_uniform [0] = Finite (1 / 2 ^ 54)"
  "example_uniform [1] = Finite (1 / 2)"
  "example_uniform [2] = Finite (1 / 4)"
  "example_uniform [3] = Finite (3 / 4)"
  by (simp_all add: example_uniform_def)

lemma example_normal_simps:
  "example_normal (example_state w det) mean sd =
     (mean + sd * (Finite 8 * example_uniform [w] - Finite 4), example_state (w + 1) det)"
  by (simp add: example_normal_def example_random_real_simps)

lemma example_env_simps:
  "real_format example_env = binary64"
  "random_real example_env = example_random_real"
  "normal example_env = example_normal"
  "exponential_mean example_env = example_exponential_mean"
  "epsilon example_env = Finite (1 / 2 ^ 52)"
  "math_log example_env = example_log"
  "math_pow example_env = example_pow"
  "math_sqrt example_env = example_sqrt"
  "std_sqrt example_env = example_sqrt"
  "math_tan example_env (Finite a) = Finite (tan a)"
  "std_cos example_env (Finite a) = Finite (cos a)"
  by (simp_all add: example_env_def)

lemma example_env_float_simps:
  "real_format example_env_float = binary32"
  "random_real example_env_float = example_random_real_float"
  "normal example_env_float = example_normal_float"
  "epsilon example_env_float = Finite (1 / 2 ^ 23)"
  "math_log example_env_float = example_log"
  "math_pow example_env_float = example_pow"
  "std_sqrt example_env_float = example_sqrt"
  by (simp_all add: example_env_float_def example_env_def)

lemma example_random_real_float_simps:
  "example_random_real_float (example_state w det) =
     (if example_uniform [w] = Finite (1 / 2 ^ 54) then Finite (1 / 2 ^ 33)
      else example_uniform [w], example_state (w + 1) det)"
  by (simp add: example_random_real_float_def example_random_real_simps)

lemma example_normal_float_simps:
  "example_normal_float (example_state w det) mean sd =
     (mean + sd * (Finite 8 * fst (example_random_real_float (example_state w det)) - Finite 4),
      example_state (w + 1 + 1) det)"
  by (simp add: example_normal_float_def example_random_real_float_simps)

lemma example_draws:
  "nth_draw example_env 0 (example_state 0 False) = Finite (1 / 2 ^ 54)"
  "nth_draw example_env 1 (example_state 0 False) = Finite (1 / 2)"
  "nth_draw example_env 2 (example_state 0 False) = Finite (1 / 4)"
  "nth_draw example_env 3 (example_state 0 False) = Finite (3 / 4)"
  "after_draws example_env 3 (example_state 0 False) = example_state 3 False"
  "after_draws example_env 4 (example_state 0 False) = example_state 4 False"
  by (simp_all add: nth_draw_def eval_nat_numeral example_env_simps
      example_random_real_simps example_uniform_simps)

section \<open>Integer to real conversion\<close>

lemma fp_round_exact: "bit_length (fst x) \<le> p \<Longrightarrow> fp_round p x = x"
  by (simp add: fp_round_def Let_def)

lemmas int_to_real_defs =
  int_to_real_double_uint64_def int_to_real_double_uint32_def int_to_real_float_uint64_def
  int_to_real_float_uint32_def fp_add_def fp_mul_def fp_of_uint_def fp_half_def
  TWOPOW53_INV_DOUBLE_def TWOPOW32_INV_DOUBLE_def TWOPOW32_INV_def real_type_of_fp_def
  fp_round_def Let_def

text \<open>
  The literals of the three macros: each lies within half the spacing of the
  format just below the power of two that models it (below \<open>2 ^ - n\<close> the spacing
  is \<open>2 ^ - (n + 24)\<close> in float and \<open>2 ^ - (n + 53)\<close> in double, and above it twice
  that), so the compiler rounds the literal to that power of two.
\<close>

lemma TWOPOW32_INV_literal:
  "real_type_of_fp TWOPOW32_INV = Finite (1 / 2 ^ 32) \<and>
   \<bar>23283064 / 10 ^ 17 - 1 / 2 ^ 32 :: real\<bar> < 1 / 2 ^ 57"
  by (simp add: real_type_of_fp_def TWOPOW32_INV_def)

lemma TWOPOW32_INV_DOUBLE_literal:
  "real_type_of_fp TWOPOW32_INV_DOUBLE = Finite (1 / 2 ^ 32) \<and>
   \<bar>23283064365386963 / 10 ^ 26 - 1 / 2 ^ 32 :: real\<bar> < 1 / 2 ^ 86"
  by (simp add: real_type_of_fp_def TWOPOW32_INV_DOUBLE_def)

lemma TWOPOW53_INV_DOUBLE_literal:
  "real_type_of_fp TWOPOW53_INV_DOUBLE = Finite (1 / 2 ^ 53) \<and>
   \<bar>11102230246251565 / 10 ^ 32 - 1 / 2 ^ 53 :: real\<bar> < 1 / 2 ^ 107"
  by (simp add: real_type_of_fp_def TWOPOW53_INV_DOUBLE_def)

text \<open>
  The conversion of a 32-bit integer to double is exact: \<open>2 x + 1\<close> has at most 33
  bits, no operation rounds, and the result lies strictly between 0 and 1.
\<close>

lemma int_to_real_double_uint32_exact:
  "int_to_real_double_uint32 x = Finite ((2 * real (unat x) + 1) / 2 ^ 33)"
proof -
  have x: "unat x < 2 ^ 32"
    using unsigned_less [of x] by simp
  then have b1: "bit_length (unat x) \<le> 53"
    using bit_length_le [of "unat x" 32] by simp
  have "Suc (unat x * 2) < 2 ^ 33" using x by simp
  then have b2: "bit_length (Suc (unat x * 2)) \<le> 53"
    using bit_length_le [of "Suc (unat x * 2)" 33] by simp
  have "fp_add 53 (fp_mul 53 (fp_of_uint 53 (unat x)) TWOPOW32_INV_DOUBLE)
          (fp_half TWOPOW32_INV_DOUBLE) = (unat x * 2 + 1, - 33)"
    by (simp add: fp_add_def fp_mul_def fp_of_uint_def fp_half_def TWOPOW32_INV_DOUBLE_def
        fp_round_exact b1 b2)
  then show ?thesis
    by (simp add: int_to_real_double_uint32_def real_type_of_fp_def power_int_minus field_simps)
qed

lemma int_to_real_double_uint32_open:
  "Finite 0 < int_to_real_double_uint32 x \<and> int_to_real_double_uint32 x < Finite 1"
proof -
  define n where "n = unat x"
  have "n < 2 ^ 32"
    unfolding n_def using unsigned_less [of x] by simp
  then have "2 * n + 1 < 2 ^ 33" by simp
  then have "real (2 * n + 1) < real (2 ^ 33)"
    by (simp only: of_nat_less_iff)
  then have upper: "(2 * real n + 1) / 2 ^ 33 < 1" by simp
  have lower: "0 < (2 * real n + 1) / 2 ^ 33" by simp
  show ?thesis
    using lower upper unfolding int_to_real_double_uint32_exact n_def by simp
qed

text \<open>
  The conversion of a 64-bit integer to double, for every input: with \<open>k = x >> 11\<close>,
  the sum \<open>(2 k + 1) * 2 ^ - 54\<close> is exact below \<open>2 ^ 52\<close> and a tie from there on,
  rounded to the even neighbour. The result is always greater than 0 and at most 1,
  and it is 1 exactly for the \<open>2 ^ 11\<close> largest inputs.
\<close>

lemma int_to_real_double_uint64_value:
  "int_to_real_double_uint64 x =
     (let k = unat (drop_bit 11 x) in
      if k < 2 ^ 52 then Finite ((2 * real k + 1) / 2 ^ 54)
      else Finite (real (if even k then k else k + 1) / 2 ^ 53))"
proof -
  define k where "k = unat (drop_bit 11 x)"
  have "unat x < 2 ^ 64"
    using unsigned_less [of x] by simp
  moreover have "k = unat x div 2 ^ 11"
    unfolding k_def unat_drop_bit_eq by (simp only: drop_bit_eq_div)
  ultimately have k: "k < 2 ^ 53"
    by (simp add: less_mult_imp_div_less)
  then have b1: "bit_length k \<le> 53"
    using bit_length_le [of k 53] by simp
  have mul: "fp_mul 53 (fp_of_uint 53 k) TWOPOW53_INV_DOUBLE = (k, - 53)"
    by (simp add: fp_mul_def fp_of_uint_def TWOPOW53_INV_DOUBLE_def fp_round_exact b1)
  have sum: "fp_add 53 (k, - 53) (fp_half TWOPOW53_INV_DOUBLE) = fp_round 53 (Suc (2 * k), - 54)"
    by (simp add: fp_add_def fp_half_def TWOPOW53_INV_DOUBLE_def mult.commute)
  show ?thesis
  proof (cases "k < 2 ^ 52")
    case True
    then have "Suc (2 * k) < 2 ^ 53" by simp
    then have "bit_length (Suc (2 * k)) \<le> 53"
      using bit_length_le [of "Suc (2 * k)" 53] by simp
    then have "fp_round 53 (Suc (2 * k), - 54) = (Suc (2 * k), - 54)"
      by (simp add: fp_round_exact)
    then show ?thesis
      using True
      by (simp add: int_to_real_double_uint64_def k_def [symmetric] mul sum real_type_of_fp_def
          power_int_minus field_simps)
  next
    case False
    then have "2 ^ 53 \<le> Suc (2 * k)" by simp
    moreover have "Suc (2 * k) < 2 ^ Suc 53" using k by simp
    ultimately have "bit_length (Suc (2 * k)) = 54"
      using bit_length_eq [of 53 "Suc (2 * k)"] by simp
    then have "fp_round 53 (Suc (2 * k), - 54) = (if even k then k else k + 1, - 53)"
      by (simp add: fp_round_def Let_def)
    then show ?thesis
      using False
      by (simp add: int_to_real_double_uint64_def k_def [symmetric] mul sum real_type_of_fp_def
          power_int_minus field_simps)
  qed
qed


lemma int_to_real_double_uint64_one_iff:
  "int_to_real_double_uint64 x = Finite 1 \<longleftrightarrow> 2 ^ 64 - 2 ^ 11 \<le> unat x"
proof -
  define k where "k = unat (drop_bit 11 x)"
  have x: "unat x < 2 ^ 64"
    using unsigned_less [of x] by simp
  have kx: "k = unat x div 2 ^ 11"
    unfolding k_def unat_drop_bit_eq by (simp only: drop_bit_eq_div)
  have k: "k < 2 ^ 53"
    using x kx by (simp add: less_mult_imp_div_less)
  have top: "k = 2 ^ 53 - 1 \<longleftrightarrow> 2 ^ 64 - 2 ^ 11 \<le> unat x"
    using x kx by auto
  have "int_to_real_double_uint64 x = Finite 1 \<longleftrightarrow> k = 2 ^ 53 - 1"
  proof (cases "k < 2 ^ 52")
    case True
    then have "real (2 * k + 1) < real (2 ^ 54)"
      by (simp only: of_nat_less_iff) simp
    then have "(2 * real k + 1) / 2 ^ 54 \<noteq> 1" by simp
    then show ?thesis
      using True by (simp add: int_to_real_double_uint64_value k_def [symmetric] Let_def)
  next
    case False
    have "real (if even k then k else k + 1) / 2 ^ 53 = 1 \<longleftrightarrow>
        (if even k then k else k + 1) = 2 ^ 53"
      by (simp add: field_simps)
    also have "\<dots> \<longleftrightarrow> k = 2 ^ 53 - 1"
      using k by auto
    finally show ?thesis
      using False by (simp add: int_to_real_double_uint64_value k_def [symmetric] Let_def)
  qed
  with top show ?thesis by simp
qed

lemma int_to_real_double_uint64_range:
  "Finite 0 < int_to_real_double_uint64 x \<and> int_to_real_double_uint64 x \<le> Finite 1"
proof -
  define k where "k = unat (drop_bit 11 x)"
  have x: "unat x < 2 ^ 64"
    using unsigned_less [of x] by simp
  have kx: "k = unat x div 2 ^ 11"
    unfolding k_def unat_drop_bit_eq by (simp only: drop_bit_eq_div)
  have k: "k < 2 ^ 53"
    using x kx by (simp add: less_mult_imp_div_less)
  show ?thesis
  proof (cases "k < 2 ^ 52")
    case True
    then have "real (2 * k + 1) < real (2 ^ 54)"
      by (simp only: of_nat_less_iff) simp
    then have "(2 * real k + 1) / 2 ^ 54 \<le> 1" by simp
    moreover have "0 < (2 * real k + 1) / 2 ^ 54" by simp
    ultimately show ?thesis
      using True by (simp add: int_to_real_double_uint64_value k_def [symmetric] Let_def)
  next
    case False
    define m where "m = (if even k then k else k + 1)"
    have "0 < m" and "m \<le> 2 ^ 53"
      using False k by (auto simp: m_def)
    then have "0 < real m" and "real m \<le> real (2 ^ 53)"
      by (simp_all only: of_nat_0_less_iff of_nat_le_iff)
    then have "0 < real m / 2 ^ 53 \<and> real m / 2 ^ 53 \<le> 1" by simp
    then show ?thesis
      using False
      by (simp add: int_to_real_double_uint64_value k_def [symmetric] Let_def m_def)
  qed
qed

lemma int_to_real_double_uint64_zero: "int_to_real_double_uint64 0 = Finite (1 / 2 ^ 54)"
  by (simp add: int_to_real_defs bit_length_numeral)

lemma int_to_real_float_uint32_below:
  "int_to_real_float_uint32 0xFFFFFF7F = Finite (16777215 / 16777216)"
  by (simp add: int_to_real_defs bit_length_numeral)

lemma int_to_real_float_uint32_least: "int_to_real_float_uint32 0xFFFFFF80 = Finite 1"
  by (simp add: int_to_real_defs bit_length_numeral)

text \<open>
  The conversions to float on the \<open>2 ^ 7\<close> largest values of the 32-bit integer they
  start from: the integer rounds to \<open>2 ^ 32\<close>, and the result is 1.
\<close>

lemma fp_of_uint_float_top:
  assumes "2 ^ 32 - 2 ^ 7 \<le> n" and "n < 2 ^ 32"
  shows "fp_of_uint 24 n = (2 ^ 24, 8)"
proof -
  have "2 ^ 31 \<le> n" using assms(1) by simp
  then have b: "bit_length n = 32"
    using bit_length_eq [of 31 n] assms(2) by simp
  have q: "n div 256 = 16777215"
    using assms by simp
  have "n = 256 * (n div 256) + n mod 256"
    by simp
  then have r: "128 \<le> n mod 256"
    using assms(1) unfolding q by simp
  show ?thesis
    using r by (simp add: fp_of_uint_def fp_round_def b q Let_def)
qed

lemma float_tail:
  "real_type_of_fp (fp_add 24 (fp_mul 24 (2 ^ 24, 8) TWOPOW32_INV) (fp_half TWOPOW32_INV)) =
     Finite 1"
  by (simp add: int_to_real_defs bit_length_numeral)

lemma int_to_real_float_uint32_top:
  assumes "2 ^ 32 - 2 ^ 7 \<le> unat x"
  shows "int_to_real_float_uint32 x = Finite 1"
proof -
  have "unat x < 2 ^ 32"
    using unsigned_less [of x] by simp
  then have "fp_of_uint 24 (unat x) = (2 ^ 24, 8)"
    using assms by (intro fp_of_uint_float_top)
  then show ?thesis
    using float_tail by (simp add: int_to_real_float_uint32_def)
qed

lemma int_to_real_float_uint64_top:
  assumes "2 ^ 64 - 2 ^ 39 \<le> unat x"
  shows "int_to_real_float_uint64 x = Finite 1"
proof -
  define t where "t = (ucast (drop_bit 32 x) :: 32 word)"
  have x: "unat x < 2 ^ 64"
    using unsigned_less [of x] by simp
  have "unat (drop_bit 32 x) = unat x div 2 ^ 32"
    unfolding unat_drop_bit_eq by (simp only: drop_bit_eq_div)
  moreover have "unat x div 2 ^ 32 < 2 ^ 32"
    using x by (simp add: less_mult_imp_div_less)
  ultimately have t: "unat t = unat x div 2 ^ 32"
    unfolding t_def by (simp add: unsigned_ucast_eq take_bit_nat_eq_self)
  have "2 ^ 32 - 2 ^ 7 \<le> unat t" and "unat t < 2 ^ 32"
    using assms x unfolding t by simp_all
  then have "fp_of_uint 24 (unat t) = (2 ^ 24, 8)"
    by (intro fp_of_uint_float_top)
  then show ?thesis
    using float_tail by (simp add: int_to_real_float_uint64_def t_def [symmetric])
qed

lemma int_to_real_double_uint64_max: "int_to_real_double_uint64 0xFFFFFFFFFFFFFFFF = Finite 1"
  by (simp add: int_to_real_defs bit_length_numeral drop_bit_eq_div)

lemma int_to_real_float_uint64_max: "int_to_real_float_uint64 0xFFFFFFFFFFFFFFFF = Finite 1"
  by (simp add: int_to_real_defs bit_length_numeral drop_bit_eq_div)

lemma int_to_real_float_uint32_max: "int_to_real_float_uint32 0xFFFFFFFF = Finite 1"
  by (simp add: int_to_real_defs bit_length_numeral)

text \<open>
  The two roundings that make the conversions reach 1, the sum \<open>(2 ^ 53 - 1) * 2 ^ - 53 +
  2 ^ - 54\<close> in double and the integer \<open>2 ^ 32 - 1\<close> in float, are the same with
  \<open>fp_round\<close> and with \<open>round_to_format\<close>.
\<close>

lemma fp_round_round_to_format:
  "real_type_of_fp (fp_round 53 (2 ^ 54 - 1, - 54)) = Finite 1"
  "round_to_format binary64 ((2 ^ 54 - 1) / 2 ^ 54) = Finite 1"
  "real_type_of_fp (fp_of_uint 24 (2 ^ 32 - 1)) = Finite (2 ^ 32)"
  "round_to_format binary32 (2 ^ 32 - 1) = Finite (2 ^ 32)"
  by (simp_all add: int_to_real_defs round_defs bit_length_numeral)

text \<open>
  C1 claims that each of the four conversions of \<open>int_to_real\<close> returns a number
  strictly between 0 and 1 for every input integer. The source does not keep the
  upper bound: at the largest input the conversion of a 64-bit integer to double
  and both conversions to float return exactly 1. In double, \<open>(2 ^ 53 - 1) * 2 ^ - 53
  + 2 ^ - 54\<close> lies halfway between two doubles and rounds to the even one, 1; in
  float, the integer \<open>2 ^ 32 - 1\<close> is first rounded to \<open>2 ^ 32\<close>. The conversion of a
  32-bit integer to double does keep both bounds
  (\<open>int_to_real_double_uint32_open\<close>); the conversion of a 64-bit integer to double
  returns 1 exactly for \<open>x >= 2 ^ 64 - 2 ^ 11\<close> (\<open>int_to_real_double_uint64_one_iff\<close>),
  and the conversions to float return 1 whenever the 32 bits they convert are at
  least \<open>0xFFFFFF80\<close> (\<open>int_to_real_float_uint32_top\<close>,
  \<open>int_to_real_float_uint64_top\<close>).
\<close>

theorem int_to_real_reaches_one:
  "int_to_real_double_uint64 0xFFFFFFFFFFFFFFFF = Finite 1 \<and>
   int_to_real_float_uint64 0xFFFFFFFFFFFFFFFF = Finite 1 \<and>
   int_to_real_float_uint32 0xFFFFFFFF = Finite 1 \<and>
   \<not> int_to_real_double_uint64 0xFFFFFFFFFFFFFFFF < Finite 1"
  by (simp add: int_to_real_double_uint64_max int_to_real_float_uint64_max
      int_to_real_float_uint32_max)

section \<open>Gamma: validation and the deterministic mode\<close>




lemma gamma_scale_deterministic:
  "deterministic st \<Longrightarrow> \<not> (shape < Finite 0 \<or> scale < Finite 0) \<Longrightarrow>
   gamma_scale t E Ed st shape scale =
     Some (Inr (if eq_real_type shape 0 \<or> eq_real_type scale 0 then 0
                else ieee_times (real_format E) shape scale, st))"
  by (simp add: gamma_scale_def gamma_validate_def gamma_deterministic_def)

text \<open>The scale that \<open>gamma_rate\<close> derives from its rate.\<close>

lemma derived_scale:
  "ieee_divide F 1 NaN = NaN"
  "ieee_divide F 1 (Finite 0) = PosInf"
  "ieee_divide F 1 NegZero = NegInf"
  "ieee_divide F 1 PosInf = Finite 0"
  "ieee_divide F 1 NegInf = NegZero"
  "r \<noteq> 0 \<Longrightarrow> ieee_divide F 1 (Finite r) = round_to_format F (1 / r)"
  by (simp_all add: ieee_divide_def one_real_type_def divide_with_simps)



lemma example_derived_scale:
  "ieee_divide binary64 1 (Finite (- 4)) = Finite (- (1 / 4))"
  "ieee_divide binary64 1 (Finite 3) = Finite (6004799503160661 / 2 ^ 54)"
  by (simp_all add: derived_scale round_defs bit_length_numeral)




lemma ieee_times_finite:
  "a \<noteq> 0 \<Longrightarrow> b \<noteq> 0 \<Longrightarrow> ieee_times F (Finite a) (Finite b) = round_to_format F (a * b)"
  by (simp add: ieee_times_def times_with_simps)

text \<open>
  C4, as amended: for every \<open>shape >= 0\<close> and \<open>scale >= 0\<close>, \<open>gamma_scale\<close> on a state
  whose deterministic flag is set returns 0 when \<open>shape == 0\<close> or \<open>scale == 0\<close> and
  otherwise the product \<open>shape * scale\<close> of the format of \<open>real_type\<close>: the exact
  product rounded to nearest, an infinity on overflow. It is exactly \<open>shape *
  scale\<close> whenever both parameters are finite and their exact product is a number
  of the format, and plus infinity when neither is zero and one is infinite. In
  particular shape 3 and scale 2 give 6, in double and in float (the witness).
\<close>

theorem gamma_deterministic_value:
  assumes "deterministic st" and "Finite 0 \<le> shape" and "Finite 0 \<le> scale"
  shows "gamma_scale t E Ed st shape scale =
           Some (Inr (if eq_real_type shape 0 \<or> eq_real_type scale 0 then 0
                      else ieee_times (real_format E) shape scale, st)) \<and>
         (\<forall>a b. shape = Finite a \<and> scale = Finite b \<and> a \<noteq> 0 \<and> b \<noteq> 0 \<longrightarrow>
            gamma_scale t E Ed st shape scale =
              Some (Inr (round_to_format (real_format E) (a * b), st))) \<and>
         (\<forall>a b. shape = Finite a \<and> scale = Finite b \<and> representable (real_format E) (a * b) \<longrightarrow>
            gamma_scale t E Ed st shape scale = Some (Inr (Finite (a * b), st))) \<and>
         (\<not> eq_real_type shape 0 \<and> \<not> eq_real_type scale 0 \<and> (shape = PosInf \<or> scale = PosInf) \<longrightarrow>
            gamma_scale t E Ed st shape scale = Some (Inr (PosInf, st)))"
proof -
  have valid: "\<not> (shape < Finite 0 \<or> scale < Finite 0)"
    using assms by (simp add: zero_le_not_less)
  note eq = gamma_scale_deterministic [OF assms(1) valid, of t E Ed]
  have rounded: "gamma_scale t E Ed st shape scale =
      Some (Inr (round_to_format (real_format E) (a * b), st))"
    if "shape = Finite a \<and> scale = Finite b \<and> a \<noteq> 0 \<and> b \<noteq> 0" for a b
    using that eq
    by (simp add: eq_real_type_def zero_real_type_def ieee_times_finite)
  have exact: "gamma_scale t E Ed st shape scale = Some (Inr (Finite (a * b), st))"
    if "shape = Finite a \<and> scale = Finite b \<and> representable (real_format E) (a * b)" for a b
  proof (cases "a = 0 \<or> b = 0")
    case True
    then show ?thesis
      using that eq by (auto simp: eq_real_type_def zero_real_type_def)
  next
    case False
    then show ?thesis
      using that rounded [of a b] by (simp add: round_to_format_representable)
  qed
  have infinite: "gamma_scale t E Ed st shape scale = Some (Inr (PosInf, st))"
    if "\<not> eq_real_type shape 0 \<and> \<not> eq_real_type scale 0 \<and> (shape = PosInf \<or> scale = PosInf)"
    using that eq assms(2,3)
    by (cases shape; cases scale)
      (auto simp: eq_real_type_def zero_real_type_def ieee_times_def times_with_simps)
  show ?thesis
    using eq rounded exact infinite by blast
qed

text \<open>
  In double and in float, shape 3 and scale 2 give 6. In double, the product of
  \<open>1 + 2 ^ - 30\<close> by itself is rounded to \<open>1 + 2 ^ - 29\<close>, and an infinite shape with
  scale 2 gives plus infinity.
\<close>

theorem gamma_deterministic_value_witness:
  "deterministic (example_state 0 True) \<and> Finite 0 \<le> Finite 3 \<and> Finite 0 \<le> Finite 2 \<and>
   representable binary64 (3 * 2) \<and> representable binary32 (3 * 2) \<and>
   gamma_scale Host example_env example_env (example_state 0 True) (Finite 3) (Finite 2) =
     Some (Inr (Finite 6, example_state 0 True)) \<and>
   gamma_scale Host example_env_float example_env (example_state 0 True) (Finite 3) (Finite 2) =
     Some (Inr (Finite 6, example_state 0 True)) \<and>
   Finite 0 \<le> Finite (1 + 1 / 2 ^ 30) \<and> (1 + 1 / 2 ^ 30 :: real) \<noteq> 0 \<and>
   gamma_scale Host example_env example_env (example_state 0 True)
       (Finite (1 + 1 / 2 ^ 30)) (Finite (1 + 1 / 2 ^ 30)) =
     Some (Inr (Finite (1 + 1 / 2 ^ 29), example_state 0 True)) \<and>
   Finite 0 \<le> PosInf \<and> \<not> eq_real_type PosInf 0 \<and> \<not> eq_real_type (Finite 2) 0 \<and>
   gamma_scale Host example_env example_env (example_state 0 True) PosInf (Finite 2) =
     Some (Inr (PosInf, example_state 0 True))"
proof -
  have det: "deterministic (example_state 0 True)"
    by (simp add: example_state_simps)
  have s3: "Finite 0 \<le> Finite 3" and s2: "Finite 0 \<le> Finite 2"
    and s1: "Finite 0 \<le> Finite (1 + 1 / 2 ^ 30)" and si: "Finite 0 \<le> PosInf"
    by simp_all
  have r: "representable (real_format example_env) (3 * 2)"
      "representable (real_format example_env_float) (3 * 2)"
    by (simp_all add: example_env_simps example_env_float_simps round_defs bit_length_numeral)
  have d: "gamma_scale Host example_env example_env (example_state 0 True) (Finite 3) (Finite 2) =
      Some (Inr (Finite (3 * 2), example_state 0 True))"
    using gamma_deterministic_value [OF det s3 s2, of Host example_env example_env] r(1)
    by blast
  have f: "gamma_scale Host example_env_float example_env (example_state 0 True) (Finite 3)
      (Finite 2) = Some (Inr (Finite (3 * 2), example_state 0 True))"
    using gamma_deterministic_value [OF det s3 s2, of Host example_env_float example_env] r(2)
    by blast
  have n: "(1 + 1 / 2 ^ 30 :: real) \<noteq> 0"
    by simp
  have r64: "round_to_format (real_format example_env) ((1 + 1 / 2 ^ 30) * (1 + 1 / 2 ^ 30)) =
      Finite (1 + 1 / 2 ^ 29)"
    by (simp add: example_env_simps round_defs bit_length_numeral)
  have "gamma_scale Host example_env example_env (example_state 0 True)
       (Finite (1 + 1 / 2 ^ 30)) (Finite (1 + 1 / 2 ^ 30)) =
     Some (Inr (round_to_format (real_format example_env)
       ((1 + 1 / 2 ^ 30) * (1 + 1 / 2 ^ 30)), example_state 0 True))"
    using gamma_deterministic_value [OF det s1 s1, of Host example_env example_env] n
    by blast
  then have e: "gamma_scale Host example_env example_env (example_state 0 True)
       (Finite (1 + 1 / 2 ^ 30)) (Finite (1 + 1 / 2 ^ 30)) =
     Some (Inr (Finite (1 + 1 / 2 ^ 29), example_state 0 True))"
    by (simp only: r64)
  have z: "\<not> eq_real_type PosInf 0 \<and> \<not> eq_real_type (Finite 2) 0"
    by (simp add: eq_real_type_def zero_real_type_def)
  have i: "gamma_scale Host example_env example_env (example_state 0 True) PosInf (Finite 2) =
      Some (Inr (PosInf, example_state 0 True))"
    using gamma_deterministic_value [OF det si s2, of Host example_env example_env] z
    by blast
  show ?thesis
    using det r d f n e z i by (simp add: example_env_simps example_env_float_simps)
qed

text \<open>
  The claim as stated fails in two ways. At shape 0 and scale plus infinity (the
  scale that \<open>gamma_rate\<close> derives from rate 0) the call returns 0, and \<open>shape *
  scale\<close> is NaN. At \<open>shape = scale = 1 + 2 ^ - 30\<close>, two doubles, the exact product
  \<open>1 + 2 ^ - 29 + 2 ^ - 60\<close> is not a double: the call returns \<open>1 + 2 ^ - 29\<close>. In
  float, the product of \<open>2 ^ 100\<close> by itself overflows, and the call returns plus
  infinity.
\<close>

theorem gamma_deterministic_value_counterexample:
  "deterministic (example_state 0 True) \<and> Finite 0 \<le> Finite 0 \<and> Finite 0 \<le> PosInf \<and>
   gamma_scale Host example_env example_env (example_state 0 True) (Finite 0) PosInf =
     Some (Inr (Finite 0, example_state 0 True)) \<and>
   Finite 0 * PosInf = NaN \<and>
   Finite 0 \<le> Finite (1 + 1 / 2 ^ 30) \<and>
   representable binary64 (1 + 1 / 2 ^ 30) \<and>
   gamma_scale Host example_env example_env (example_state 0 True)
       (Finite (1 + 1 / 2 ^ 30)) (Finite (1 + 1 / 2 ^ 30)) =
     Some (Inr (Finite (1 + 1 / 2 ^ 29), example_state 0 True)) \<and>
   Finite (1 + 1 / 2 ^ 30) * Finite (1 + 1 / 2 ^ 30) = Finite (1 + 1 / 2 ^ 29 + 1 / 2 ^ 60) \<and>
   Finite 0 \<le> Finite (2 ^ 100) \<and>
   representable binary32 (2 ^ 100) \<and>
   gamma_scale Host example_env_float example_env (example_state 0 True)
       (Finite (2 ^ 100)) (Finite (2 ^ 100)) =
     Some (Inr (PosInf, example_state 0 True)) \<and>
   Finite (2 ^ 100) * Finite (2 ^ 100) = Finite (2 ^ 200)"
proof -
  have zero: "gamma_scale Host example_env example_env (example_state 0 True) (Finite 0) PosInf =
      Some (Inr (Finite 0, example_state 0 True))"
    by (simp add: gamma_scale_def gamma_validate_def eq_real_type_def zero_real_type_def
        example_state_simps)
  have r64: "round_to_format binary64 ((1 + 1 / 2 ^ 30) * (1 + 1 / 2 ^ 30)) =
      Finite (1 + 1 / 2 ^ 29)"
    by (simp add: round_defs bit_length_numeral)
  have round: "gamma_scale Host example_env example_env (example_state 0 True)
       (Finite (1 + 1 / 2 ^ 30)) (Finite (1 + 1 / 2 ^ 30)) =
     Some (Inr (Finite (1 + 1 / 2 ^ 29), example_state 0 True))"
    unfolding gamma_scale_def gamma_deterministic_def ieee_times_def example_env_simps
    by (simp add: gamma_validate_def eq_real_type_def zero_real_type_def example_state_simps
        times_with_simps r64 [simplified])
  have r32: "round_to_format binary32 (2 ^ 100 * 2 ^ 100) = PosInf"
    by (simp add: round_defs bit_length_numeral)
  have over: "gamma_scale Host example_env_float example_env (example_state 0 True)
       (Finite (2 ^ 100)) (Finite (2 ^ 100)) =
     Some (Inr (PosInf, example_state 0 True))"
    unfolding gamma_scale_def gamma_deterministic_def ieee_times_def example_env_float_simps
    by (simp add: gamma_validate_def eq_real_type_def zero_real_type_def example_state_simps
        times_with_simps r32 [simplified])
  have rep: "representable binary64 (1 + 1 / 2 ^ 30)" "representable binary32 (2 ^ 100)"
    by (simp_all add: round_defs bit_length_numeral)
  show ?thesis
    using zero round over rep by (simp add: example_state_simps)
qed

text \<open>
  C8: for every shape and scale that pass the validation, \<open>gamma_scale\<close> on a state
  whose deterministic flag is set returns, and the generator state after the call
  is the state before it: no draw is consumed.
\<close>

theorem gamma_deterministic_no_draw:
  "deterministic st \<Longrightarrow> gamma_validate t shape scale = Inr () \<Longrightarrow>
   \<exists>r. gamma_scale t E Ed st shape scale = Some (Inr (r, st))"
  by (simp add: gamma_scale_def gamma_deterministic_def)

theorem gamma_deterministic_no_draw_witness:
  "deterministic (example_state 7 True) \<and>
   gamma_validate Host (Finite (1 / 2)) (Finite 4) = Inr () \<and>
   (\<exists>r. gamma_scale Host example_env example_env (example_state 7 True) (Finite (1 / 2))
      (Finite 4) = Some (Inr (r, example_state 7 True)))"
proof -
  have det: "deterministic (example_state 7 True)"
    by (simp add: example_state_simps)
  have valid: "gamma_validate Host (Finite (1 / 2)) (Finite 4) = Inr ()"
    by (simp add: gamma_validate_def)
  show ?thesis
    using det valid gamma_deterministic_no_draw [OF det valid, of example_env example_env] by simp
qed

section \<open>Gamma: the stochastic mode\<close>

lemma gamma_small_eq:
  "gamma_small E Ed st shape =
     (case random_real E st of (u, st1) \<Rightarrow>
        map_option (\<lambda>(g, st2). (g * math_pow E u (1 / shape), st2))
          (gamma_large Ed st1 (shape + Finite 1)))"
  by (simp add: gamma_small_def Let_def split: prod.splits option.splits)

lemma gamma_scale_large:
  assumes "1 < shape" and "gamma_validate t shape scale = Inr ()"
    and "\<not> eq_real_type scale 0" and "\<not> deterministic st"
  shows "gamma_scale t E Ed st shape scale =
           map_option (\<lambda>(g, st'). Inr (g * scale, st')) (gamma_large E st shape)"
  using assms one_less_cases [OF assms(1)]
  by (simp add: gamma_scale_def split: option.splits)

text \<open>The loop of the source runs the iteration of the specification until it accepts.\<close>

lemma gamma_large_loop_step:
  "gamma_large_loop E d c st =
     (case marsaglia_tsang_iteration E d c st of
        (Some g, st') \<Rightarrow> Some (g, st')
      | (None, st') \<Rightarrow> gamma_large_loop E d c st')"
  by (subst gamma_large_loop.simps)
    (simp add: marsaglia_tsang_iteration_def Let_def cube_le_zero split: prod.splits)

lemma marsaglia_tsang_loop:
  "marsaglia_tsang n E d c st = Some r \<Longrightarrow> gamma_large_loop E d c st = Some r"
proof (induction n arbitrary: st)
  case 0
  then show ?case by simp
next
  case (Suc n)
  then show ?case
    by (subst gamma_large_loop_step) (auto split: prod.splits option.splits)
qed


lemma example_iteration_0:
  "marsaglia_tsang_iteration example_env (Finite 1) (Finite (1 / 3)) (example_state 0 False) =
     (None, example_state 1 False)"
  by (simp add: marsaglia_tsang_iteration_def example_env_simps example_normal_simps
      example_uniform_simps zero_real_type_def one_real_type_def minus_real_type_def)

lemma example_iteration_1:
  "marsaglia_tsang_iteration example_env (Finite 1) (Finite (1 / 3)) (example_state 1 False) =
     (Some (Finite 1), example_state 3 False)"
  by (simp add: marsaglia_tsang_iteration_def example_env_simps example_normal_simps
      example_random_real_simps example_uniform_simps zero_real_type_def one_real_type_def
      minus_real_type_def)

lemma example_marsaglia_tsang:
  "marsaglia_tsang 2 example_env (Finite 1) (Finite (1 / 3)) (example_state 0 False) =
     Some (Finite 1, example_state 3 False)"
  "marsaglia_tsang 1 example_env (Finite 1) (Finite (1 / 3)) (example_state 0 False) = None"
  by (simp_all add: numeral_2_eq_2 example_iteration_0 example_iteration_1)

lemma example_gamma_large_4_3:
  "gamma_large example_env (example_state 0 False) (Finite (4 / 3)) =
     Some (Finite 1, example_state 3 False)"
proof -
  have d: "Finite (4 / 3) - Finite 1 / Finite 3 = Finite 1"
    by (simp add: minus_real_type_def)
  have c: "Finite 1 / std_sqrt example_env (Finite 9 * Finite 1) = Finite (1 / 3)"
    by (simp add: example_env_simps example_sqrt_def sqrt_9)
  show ?thesis
    unfolding gamma_large_def Let_def d c
    by (rule marsaglia_tsang_loop [OF example_marsaglia_tsang(1)])
qed

lemma example_gamma_large_3_2:
  "gamma_large example_env (example_state 1 False) (Finite (3 / 2)) =
     Some (Finite (7 / 6), example_state 3 False)"
proof -
  have d: "Finite (3 / 2) - Finite 1 / Finite 3 = Finite (7 / 6)"
    by (simp add: minus_real_type_def)
  have c: "Finite 1 / std_sqrt example_env (Finite 9 * Finite (7 / 6)) =
      Finite (1 / sqrt (21 / 2))"
    by (simp add: example_env_simps example_sqrt_def)
  have "marsaglia_tsang_iteration example_env (Finite (7 / 6)) (Finite (1 / sqrt (21 / 2)))
      (example_state 1 False) = (Some (Finite (7 / 6)), example_state 3 False)"
    by (simp add: marsaglia_tsang_iteration_def example_env_simps example_normal_simps
        example_random_real_simps example_uniform_simps zero_real_type_def one_real_type_def
        minus_real_type_def)
  then show ?thesis
    unfolding gamma_large_def Let_def d c
    by (subst gamma_large_loop_step) simp
qed

text \<open>
  The large-shape generator at shape 3/2, started after one draw, instantiated at
  \<open>float\<close>: its normal sampler consumes two draws, and it ends one state further
  than the generator instantiated at \<open>double\<close> (\<open>example_gamma_large_3_2\<close>).
\<close>

lemma example_gamma_large_float:
  "gamma_large example_env_float (example_state 1 False) (Finite (3 / 2)) =
     Some (Finite (7 / 6), example_state 4 False)"
proof -
  have d: "Finite (3 / 2) - Finite 1 / Finite 3 = Finite (7 / 6)"
    by (simp add: minus_real_type_def)
  have c: "Finite 1 / std_sqrt example_env_float (Finite 9 * Finite (7 / 6)) =
      Finite (1 / sqrt (21 / 2))"
    by (simp add: example_env_float_simps example_sqrt_def)
  have "marsaglia_tsang_iteration example_env_float (Finite (7 / 6)) (Finite (1 / sqrt (21 / 2)))
      (example_state 1 False) = (Some (Finite (7 / 6)), example_state 4 False)"
    by (simp add: marsaglia_tsang_iteration_def example_env_float_simps
        example_normal_float_simps example_random_real_float_simps example_uniform_simps
        zero_real_type_def one_real_type_def minus_real_type_def)
  then show ?thesis
    unfolding gamma_large_def Let_def d c
    by (subst gamma_large_loop_step) simp
qed

text \<open>
  C5: in stochastic mode and on parameters that pass the validation, \<open>gamma_scale\<close>
  returns 0 without drawing if \<open>shape == 0\<close> or \<open>scale == 0\<close>; otherwise,
  if \<open>0 < shape < 1\<close> it draws one uniform U, runs the large-shape generator at
  \<open>shape + 1\<close> and returns its value times \<open>pow(U, 1 / shape)\<close> times scale; if \<open>shape
  == 1\<close> it returns \<open>exponential_mean\<close> at scale; if \<open>shape > 1\<close> it returns the value
  of the large-shape rejection loop times scale. The uniform draw, \<open>pow\<close>,
  \<open>exponential_mean\<close> and the loop of the case \<open>shape > 1\<close> are those of \<open>real_type\<close>
  (\<open>E\<close>); the large-shape generator of the case \<open>0 < shape < 1\<close> is the one
  instantiated at \<open>double\<close> (\<open>Ed\<close>). A loop that does not return leaves the call
  without a result (\<open>None\<close>).
\<close>

theorem gamma_scale_dispatch:
  assumes "\<not> deterministic st" and "gamma_validate t shape scale = Inr ()"
  shows "(eq_real_type shape 0 \<or> eq_real_type scale 0 \<longrightarrow>
            gamma_scale t E Ed st shape scale = Some (Inr (0, st))) \<and>
         (0 < shape \<and> shape < 1 \<and> \<not> eq_real_type scale 0 \<longrightarrow>
            gamma_scale t E Ed st shape scale =
              (case random_real E st of (u, st1) \<Rightarrow>
                 map_option (\<lambda>(g, st2). Inr (g * math_pow E u (1 / shape) * scale, st2))
                   (gamma_large Ed st1 (shape + Finite 1)))) \<and>
         (eq_real_type shape 1 \<and> \<not> eq_real_type scale 0 \<longrightarrow>
            gamma_scale t E Ed st shape scale = Some (Inr (exponential_mean E st scale))) \<and>
         (1 < shape \<and> \<not> eq_real_type scale 0 \<longrightarrow>
            gamma_scale t E Ed st shape scale =
              map_option (\<lambda>(g, st'). Inr (g * scale, st')) (gamma_large E st shape))"
proof -
  note valid = assms(2)
  have zero: "gamma_scale t E Ed st shape scale = Some (Inr (0, st))"
    if "eq_real_type shape 0 \<or> eq_real_type scale 0"
    using that valid by (simp add: gamma_scale_def)
  have small: "gamma_scale t E Ed st shape scale =
      (case random_real E st of (u, st1) \<Rightarrow>
         map_option (\<lambda>(g, st2). Inr (g * math_pow E u (1 / shape) * scale, st2))
           (gamma_large Ed st1 (shape + Finite 1)))"
    if "0 < shape \<and> shape < 1 \<and> \<not> eq_real_type scale 0"
  proof -
    have "\<not> eq_real_type shape 0"
      using that by (cases shape) (auto simp: eq_real_type_def zero_real_type_def)
    then show ?thesis
      using that valid assms(1)
      by (simp add: gamma_scale_def gamma_small_eq split: prod.splits option.splits)
  qed
  have unit: "gamma_scale t E Ed st shape scale = Some (Inr (exponential_mean E st scale))"
    if "eq_real_type shape 1 \<and> \<not> eq_real_type scale 0"
  proof -
    have "\<not> eq_real_type shape 0" and "\<not> shape < 1"
      using that
      by (cases shape; auto simp: eq_real_type_def zero_real_type_def one_real_type_def)+
    then show ?thesis
      using that valid assms(1) by (simp add: gamma_scale_def)
  qed
  have large: "gamma_scale t E Ed st shape scale =
      map_option (\<lambda>(g, st'). Inr (g * scale, st')) (gamma_large E st shape)"
    if "1 < shape \<and> \<not> eq_real_type scale 0"
    using gamma_scale_large [OF _ valid _ assms(1), of E Ed] that by simp
  show ?thesis
    using zero small unit large by blast
qed

theorem gamma_scale_dispatch_witness:
  "\<not> deterministic (example_state 0 False) \<and>
   gamma_validate Host (Finite (1 / 2)) (Finite 2) = Inr () \<and>
   gamma_scale Host example_env example_env (example_state 0 False) (Finite 0) (Finite 2) =
     Some (Inr (Finite 0, example_state 0 False)) \<and>
   gamma_scale Host example_env example_env (example_state 0 False) (Finite (1 / 2)) (Finite 2) =
     Some (Inr (Finite (7 / 6) * math_pow example_env (Finite (1 / 2 ^ 54)) (Finite 2) * Finite 2,
                example_state 3 False)) \<and>
   gamma_scale Host example_env example_env (example_state 0 False) (Finite 1) (Finite 2) =
     Some (Inr (exponential_mean example_env (example_state 0 False) (Finite 2))) \<and>
   gamma_scale Host example_env example_env (example_state 0 False) (Finite (4 / 3)) (Finite 2) =
     Some (Inr (Finite 2, example_state 3 False)) \<and>
   gamma_scale Host example_env_float example_env (example_state 0 False) (Finite (1 / 2))
       (Finite 2) =
     Some (Inr (Finite (7 / 6) * math_pow example_env_float (Finite (1 / 2 ^ 33)) (Finite 2) *
                Finite 2, example_state 3 False)) \<and>
   gamma_large example_env (example_state 1 False) (Finite (3 / 2)) =
     Some (Finite (7 / 6), example_state 3 False) \<and>
   gamma_large example_env_float (example_state 1 False) (Finite (3 / 2)) =
     Some (Finite (7 / 6), example_state 4 False)"
proof -
  have st: "\<not> deterministic (example_state 0 False)"
    by (simp add: example_state_simps)
  have v: "gamma_validate Host (Finite a) (Finite 2) = Inr ()" if "0 \<le> a" for a
    using that by (simp add: gamma_validate_def)
  have c0: "gamma_scale Host example_env example_env (example_state 0 False) (Finite 0) (Finite 2) =
      Some (Inr (Finite 0, example_state 0 False))"
    using gamma_scale_dispatch [OF st v, of 0 example_env example_env]
    by (simp add: eq_real_type_def zero_real_type_def)
  have c1: "gamma_scale Host example_env example_env (example_state 0 False) (Finite (1 / 2)) (Finite 2) =
      Some (Inr (Finite (7 / 6) * math_pow example_env (Finite (1 / 2 ^ 54)) (Finite 2) * Finite 2,
                 example_state 3 False))"
    using gamma_scale_dispatch [OF st v, of "1 / 2" example_env example_env]
    by (simp add: eq_real_type_def zero_real_type_def one_real_type_def example_env_simps
        example_random_real_simps example_uniform_simps example_gamma_large_3_2)
  have c2: "gamma_scale Host example_env example_env (example_state 0 False) (Finite 1) (Finite 2) =
      Some (Inr (exponential_mean example_env (example_state 0 False) (Finite 2)))"
    using gamma_scale_dispatch [OF st v, of 1 example_env example_env]
    by (simp add: eq_real_type_def zero_real_type_def one_real_type_def)
  have c3: "gamma_scale Host example_env example_env (example_state 0 False) (Finite (4 / 3)) (Finite 2) =
      Some (Inr (Finite 2, example_state 3 False))"
    using gamma_scale_dispatch [OF st v, of "4 / 3" example_env example_env]
    by (simp add: eq_real_type_def zero_real_type_def one_real_type_def
        example_gamma_large_4_3)
  have c4: "gamma_scale Host example_env_float example_env (example_state 0 False)
      (Finite (1 / 2)) (Finite 2) =
      Some (Inr (Finite (7 / 6) * math_pow example_env_float (Finite (1 / 2 ^ 33)) (Finite 2) *
                 Finite 2, example_state 3 False))"
    using gamma_scale_dispatch [OF st v, of "1 / 2" example_env_float example_env]
    by (simp add: eq_real_type_def zero_real_type_def one_real_type_def example_env_float_simps
        example_random_real_float_simps example_uniform_simps example_gamma_large_3_2)
  show ?thesis
    using st v [of "1 / 2"] c0 c1 c2 c3 c4 example_gamma_large_3_2 example_gamma_large_float
    by simp
qed



section \<open>Cauchy\<close>

text \<open>
  C3, as amended: on a state whose deterministic flag is set, for every location
  and scale, \<open>cauchy\<close> compiled for the host fails with a \<open>runtime_error\<close> and
  returns no value; compiled for the device, where the test of the flag is left
  out, it does not fail: it consumes one uniform draw U and returns \<open>location +
  scale * tan (pi U)\<close>.
\<close>

theorem cauchy_deterministic:
  "deterministic st \<Longrightarrow>
     cauchy Host E st location scale = Inl (runtime_error cauchy_message) \<and>
     cauchy Device E st location scale =
       Inr (location + scale * math_tan E (M_PI * fst (random_real E st)),
            snd (random_real E st))"
  by (simp add: cauchy_def split: prod.splits)

theorem cauchy_deterministic_witness:
  "deterministic (example_state 2 True) \<and>
   cauchy Host example_env (example_state 2 True) (Finite 0) (Finite 1) =
     Inl (runtime_error cauchy_message) \<and>
   cauchy Device example_env (example_state 2 True) (Finite 0) (Finite 1) =
     Inr (Finite 1, example_state 3 True)"
proof -
  have det: "deterministic (example_state 2 True)"
    by (simp add: example_state_simps)
  show ?thesis
    using det cauchy_deterministic [OF det, of example_env "Finite 0" "Finite 1"]
    by (simp add: example_env_simps example_random_real_simps example_uniform_def M_PI_def tan_45)
qed

text \<open>
  The claim as stated fails on the device: the deterministic flag is set, and the
  call returns a value.
\<close>

theorem cauchy_deterministic_counterexample:
  "deterministic (example_state 2 True) \<and>
   cauchy Device example_env (example_state 2 True) (Finite 0) (Finite 1) =
     Inr (Finite 1, example_state 3 True)"
  by (simp add: cauchy_def example_env_simps example_random_real_simps example_uniform_def
      M_PI_def tan_45 example_state_simps)

text \<open>
  C10: in stochastic mode \<open>cauchy\<close> validates nothing: for every location and
  scale, a zero, negative, infinite or NaN scale included, and on both backends, it
  consumes exactly one uniform draw U and returns \<open>location + scale * tan (pi U)\<close>,
  never an error.
\<close>

theorem cauchy_stochastic:
  "\<not> deterministic st \<Longrightarrow>
     cauchy t E st location scale =
       Inr (location + scale * math_tan E (M_PI * nth_draw E 0 st), after_draws E 1 st)"
  by (simp add: cauchy_def nth_draw_def split: prod.splits)

theorem cauchy_stochastic_witness:
  "\<not> deterministic (example_state 2 False) \<and>
   cauchy Host example_env (example_state 2 False) (Finite 5) (Finite 0) =
     Inr (Finite 5, example_state 3 False) \<and>
   cauchy Host example_env (example_state 2 False) (Finite 5) (Finite (- 2)) =
     Inr (Finite 3, example_state 3 False) \<and>
   cauchy Host example_env (example_state 2 False) (Finite 5) PosInf =
     Inr (PosInf, example_state 3 False) \<and>
   cauchy Device example_env (example_state 2 False) NaN (Finite 1) =
     Inr (NaN, example_state 3 False)"
proof -
  have st: "\<not> deterministic (example_state 2 False)"
    by (simp add: example_state_simps)
  show ?thesis
    using st cauchy_stochastic [OF st, of Host example_env "Finite 5" "Finite 0"]
      cauchy_stochastic [OF st, of Host example_env "Finite 5" "Finite (- 2)"]
      cauchy_stochastic [OF st, of Host example_env "Finite 5" PosInf]
      cauchy_stochastic [OF st, of Device example_env NaN "Finite 1"]
    by (simp add: nth_draw_def example_env_simps example_random_real_simps example_uniform_def
        M_PI_def tan_45)
qed

section \<open>Box-Muller\<close>

lemma nth_draw_Suc: "nth_draw E (Suc n) st = nth_draw E n (snd (random_real E st))"
  by (simp add: nth_draw_def)

lemma box_muller_loop_pairs:
  "(\<forall>i<n. nth_draw E (2 * i) st \<le> epsilon E) \<Longrightarrow> \<not> nth_draw E (2 * n) st \<le> epsilon E \<Longrightarrow>
   box_muller_loop E st =
     Some (nth_draw E (2 * n) st, nth_draw E (2 * n + 1) st, after_draws E (2 * n + 2) st)"
proof (induction n arbitrary: st)
  case 0
  then show ?case
    by (subst box_muller_loop.simps) (simp add: nth_draw_def numeral_2_eq_2 case_prod_beta)
next
  case (Suc n)
  define st2 where "st2 = snd (random_real E (snd (random_real E st)))"
  have shift: "nth_draw E (Suc (Suc k)) st = nth_draw E k st2" for k
    by (simp add: nth_draw_Suc st2_def)
  have shift': "after_draws E (Suc (Suc k)) st = after_draws E k st2" for k
    by (simp add: st2_def)
  have first: "nth_draw E 0 st \<le> epsilon E"
    using Suc.prems(1) by auto
  have "\<forall>i<n. nth_draw E (2 * i) st2 \<le> epsilon E"
  proof (intro allI impI)
    fix i assume "i < n"
    then have "nth_draw E (2 * Suc i) st \<le> epsilon E"
      using Suc.prems(1) by auto
    then show "nth_draw E (2 * i) st2 \<le> epsilon E"
      by (simp add: shift)
  qed
  moreover have "\<not> nth_draw E (2 * n) st2 \<le> epsilon E"
    using Suc.prems(2) by (simp add: shift)
  ultimately have IH: "box_muller_loop E st2 =
      Some (nth_draw E (2 * n) st2, nth_draw E (2 * n + 1) st2, after_draws E (2 * n + 2) st2)"
    by (rule Suc.IH)
  have e1: "nth_draw E (2 * Suc n) st = nth_draw E (2 * n) st2"
    using shift [of "2 * n"] by simp
  have e2: "nth_draw E (2 * Suc n + 1) st = nth_draw E (2 * n + 1) st2"
    using shift [of "2 * n + 1"] by simp
  have e3: "after_draws E (2 * Suc n + 2) st = after_draws E (2 * n + 2) st2"
    using shift' [of "2 * n + 2"] by simp
  have "box_muller_loop E st = box_muller_loop E st2"
    using first
    by (subst box_muller_loop.simps) (simp add: nth_draw_def st2_def case_prod_beta)
  then show ?case
    using IH by (simp only: e1 e2 e3)
qed

lemma draw_u1_example:
  "draw_u1_as_specified example_env (example_state 0 False) =
     Some (Finite (1 / 2), example_state 2 False)"
  apply (subst draw_u1_as_specified.simps)
  apply (simp add: example_env_simps example_random_real_simps example_uniform_simps)
  apply (subst draw_u1_as_specified.simps)
  apply (simp add: example_env_simps example_random_real_simps example_uniform_simps)
  done

text \<open>
  C7, as amended: \<open>random_normal_box_muller\<close> draws the uniforms in pairs, U1 and
  then U2, and draws a new pair while \<open>U1 <= epsilon\<close>, so that each rejection
  consumes two draws. When the first \<open>n\<close> pairs are rejected and pair \<open>n\<close> has \<open>U1 >
  epsilon\<close>, it returns \<open>sqrt (-2 ln U1) * cos (2 pi U2)\<close> of that pair, with \<open>2 n + 2\<close>
  draws consumed; the logarithm is taken of the accepted U1 only, and no rejection
  is an error.
\<close>

theorem box_muller_redraws_pairs:
  assumes "\<forall>i<n. nth_draw E (2 * i) st \<le> epsilon E"
    and "\<not> nth_draw E (2 * n) st \<le> epsilon E"
  shows "random_normal_box_muller E st =
           Some (math_sqrt E (Finite (- 2) * math_log E (nth_draw E (2 * n) st)) *
                 std_cos E (Finite 2 * M_PI * nth_draw E (2 * n + 1) st),
                 after_draws E (2 * n + 2) st)"
  using box_muller_loop_pairs [OF assms] by (simp add: random_normal_box_muller_def)

theorem box_muller_redraws_pairs_witness:
  "nth_draw example_env 0 (example_state 0 False) \<le> epsilon example_env \<and>
   \<not> nth_draw example_env 2 (example_state 0 False) \<le> epsilon example_env \<and>
   random_normal_box_muller example_env (example_state 0 False) =
     Some (math_sqrt example_env (Finite (- 2) * math_log example_env (Finite (1 / 4))) *
           std_cos example_env (Finite 2 * M_PI * Finite (3 / 4)),
           example_state 4 False)"
proof -
  have h1: "\<forall>i<1. nth_draw example_env (2 * i) (example_state 0 False) \<le> epsilon example_env"
    by (simp add: example_draws example_env_simps)
  have h2: "\<not> nth_draw example_env (2 * 1) (example_state 0 False) \<le> epsilon example_env"
    by (simp add: example_draws example_env_simps)
  show ?thesis
    using box_muller_redraws_pairs [OF h1 h2] h1 h2
    by (simp add: example_draws)
qed

text \<open>
  The claim as stated, U1 redrawn alone and U2 drawn once after the loop, is
  \<open>box_muller_as_specified\<close>. On the example, whose first draw is below epsilon, the
  source consumes four draws and the procedure as stated three, so the two end in
  different generator states.
\<close>

theorem box_muller_counterexample:
  "map_option snd (random_normal_box_muller example_env (example_state 0 False)) =
     Some (example_state 4 False) \<and>
   map_option snd (box_muller_as_specified example_env (example_state 0 False)) =
     Some (example_state 3 False) \<and>
   random_normal_box_muller example_env (example_state 0 False) \<noteq>
     box_muller_as_specified example_env (example_state 0 False)"
proof -
  have h1: "\<forall>i<1. nth_draw example_env (2 * i) (example_state 0 False) \<le> epsilon example_env"
    by (simp add: example_draws example_env_simps)
  have h2: "\<not> nth_draw example_env (2 * 1) (example_state 0 False) \<le> epsilon example_env"
    by (simp add: example_draws example_env_simps)
  have code: "map_option snd (random_normal_box_muller example_env (example_state 0 False)) =
      Some (example_state 4 False)"
    using box_muller_loop_pairs [OF h1 h2]
    by (simp add: random_normal_box_muller_def example_draws)
  have spec: "map_option snd (box_muller_as_specified example_env (example_state 0 False)) =
      Some (example_state 3 False)"
    by (simp add: box_muller_as_specified_def draw_u1_example example_env_simps
        example_random_real_simps)
  have "example_state 4 False \<noteq> (example_state 3 False :: 64 xoshiro_state)"
    by (simp add: example_state_def)
  with code spec show ?thesis
    by (metis option.inject)
qed

section \<open>Seeding from raw bytes\<close>

lemma raw_seed_error:
  "length seed_data = 0 \<or> length seed_data mod (sizeof_int_type * state_size) \<noteq> 0 \<Longrightarrow>
   raw_seed sizeof_int_type state_size seed_data =
     Inl (cpp11_stop raw_seed_format [sizeof_int_type * state_size])"
  by (auto simp: raw_seed_def Let_def)

lemma raw_seed_ok:
  "0 < length seed_data \<Longrightarrow> length seed_data mod (sizeof_int_type * state_size) = 0 \<Longrightarrow>
   raw_seed sizeof_int_type state_size seed_data =
     Inr (map (\<lambda>i. load_int_type (take sizeof_int_type (drop (i * sizeof_int_type) seed_data)))
            [0 ..< length seed_data div sizeof_int_type])"
  by (simp add: raw_seed_def Let_def)

lemma raw_seed_example:
  "(raw_seed 4 2 [1, 0, 0, 0, 0, 1, 0, 0] :: r_error + 32 word list) = Inr [1, 256]"
  by (simp add: raw_seed_def load_int_type_def upt_rec)

text \<open>The number that a list of bytes denotes, and its bytes.\<close>

lemma bytes_value_less: "foldr (\<lambda>b acc. unat b + 256 * acc) bs 0 < 256 ^ length bs"
  for bs :: "8 word list"
proof (induction bs)
  case Nil
  show ?case by simp
next
  case (Cons b bs)
  have "unat b < 256"
    using unsigned_less [of b] by simp
  with Cons show ?case by simp
qed

lemma bytes_value_byte:
  "j < length bs \<Longrightarrow>
   foldr (\<lambda>b acc. unat b + 256 * acc) bs 0 div 256 ^ j mod 256 = unat (bs ! j)"
  for bs :: "8 word list"
proof (induction bs arbitrary: j)
  case Nil
  then show ?case by simp
next
  case (Cons b bs)
  define v where "v = foldr (\<lambda>b acc. unat b + 256 * acc) bs 0"
  have b: "unat b < 256"
    using unsigned_less [of b] by simp
  show ?case
  proof (cases j)
    case 0
    then show ?thesis using b by simp
  next
    case (Suc i)
    have "(unat b + 256 * v) div (256 * 256 ^ i) = ((unat b + 256 * v) div 256) div 256 ^ i"
      by (simp add: div_mult2_eq)
    also have "(unat b + 256 * v) div 256 = v"
      using b by simp
    finally show ?thesis
      using Cons.IH [of i] Cons.prems Suc by (simp add: v_def)
  qed
qed

text \<open>
  Storing the integer that \<open>memcpy\<close> made of \<open>sizeof(int_type)\<close> bytes gives these
  bytes back.
\<close>

lemma store_load:
  assumes "LENGTH('w::len) = 8 * length bs"
  shows "store_int_type (length bs) (load_int_type bs :: 'w word) = bs"
proof (rule nth_equalityI)
  show "length (store_int_type (length bs) (load_int_type bs :: 'w word)) = length bs"
    by (simp add: store_int_type_def)
next
  fix j assume "j < length (store_int_type (length bs) (load_int_type bs :: 'w word))"
  then have j: "j < length bs" by (simp add: store_int_type_def)
  define n where "n = foldr (\<lambda>b acc. unat b + 256 * acc) bs 0"
  have "n < 2 ^ LENGTH('w)"
    using bytes_value_less [of bs] unfolding assms n_def by (simp add: power_mult)
  then have u: "unat (load_int_type bs :: 'w word) = n"
    by (simp add: load_int_type_def n_def unsigned_of_nat take_bit_nat_eq_self)
  define v where "v = drop_bit (8 * j) (load_int_type bs :: 'w word)"
  have "unat v = unat (load_int_type bs :: 'w word) div 2 ^ (8 * j)"
    unfolding v_def unat_drop_bit_eq by (simp only: drop_bit_eq_div)
  then have v: "unat v = n div 256 ^ j"
    by (simp add: u power_mult)
  have "unat (ucast v :: 8 word) = unat v mod 256"
    by (simp add: unsigned_ucast_eq take_bit_eq_mod)
  then have "unat (ucast v :: 8 word) = n div 256 ^ j mod 256"
    by (simp only: v)
  also have "\<dots> = unat (bs ! j)"
    unfolding n_def by (rule bytes_value_byte [OF j])
  finally have "ucast v = bs ! j"
    by (simp only: word_unat_eq_iff)
  then show "store_int_type (length bs) (load_int_type bs :: 'w word) ! j = bs ! j"
    using j by (simp add: store_int_type_def v_def)
qed

lemma concat_chunks:
  assumes "0 < n"
  shows "length xs = k * n \<Longrightarrow>
    concat (map (\<lambda>i. take n (drop (i * n) xs)) [0 ..< k]) = xs"
proof (induction k arbitrary: xs)
  case 0
  then show ?case by simp
next
  case (Suc k)
  have l: "length (take (k * n) xs) = k * n"
    using Suc.prems by simp
  have m: "map (\<lambda>i. take n (drop (i * n) xs)) [0 ..< k] =
      map (\<lambda>i. take n (drop (i * n) (take (k * n) xs))) [0 ..< k]"
  proof (rule map_cong [OF refl])
    fix i assume "i \<in> set [0 ..< k]"
    then have "i < k" by simp
    then have "Suc i \<le> k" by simp
    then have "Suc i * n \<le> k * n"
      by (rule mult_le_mono1)
    then have "i * n + n \<le> k * n" by simp
    then show "take n (drop (i * n) xs) = take n (drop (i * n) (take (k * n) xs))"
      by (simp add: drop_take min_def)
  qed
  have "concat (map (\<lambda>i. take n (drop (i * n) xs)) [0 ..< k]) =
      concat (map (\<lambda>i. take n (drop (i * n) (take (k * n) xs))) [0 ..< k])"
    by (simp only: m)
  also have "\<dots> = take (k * n) xs"
    by (rule Suc.IH [OF l])
  finally have "concat (map (\<lambda>i. take n (drop (i * n) xs)) [0 ..< k]) = take (k * n) xs" .
  moreover have "take n (drop (k * n) xs) = drop (k * n) xs"
    using Suc.prems by simp
  ultimately show ?case by simp
qed

text \<open>The bytes of the integers that \<open>raw_seed\<close> returns are the bytes it was given.\<close>

lemma raw_seed_bytes:
  assumes n: "0 < n" and w: "LENGTH('w::len) = 8 * n" and l: "length xs = k * n"
  shows "concat (map (store_int_type n)
           (map (\<lambda>i. load_int_type (take n (drop (i * n) xs)) :: 'w word) [0 ..< k])) = xs"
proof -
  have m: "map (\<lambda>i. store_int_type n (load_int_type (take n (drop (i * n) xs)) :: 'w word))
        [0 ..< k] =
      map (\<lambda>i. take n (drop (i * n) xs)) [0 ..< k]"
  proof (rule map_cong [OF refl])
    fix i assume "i \<in> set [0 ..< k]"
    then have "Suc i \<le> k" by simp
    then have "Suc i * n \<le> k * n"
      by (rule mult_le_mono1)
    then have len: "length (take n (drop (i * n) xs)) = n"
      using l by simp
    show "store_int_type n (load_int_type (take n (drop (i * n) xs)) :: 'w word) =
        take n (drop (i * n) xs)"
      using store_load [of "take n (drop (i * n) xs)", where 'w = 'w] w unfolding len by simp
  qed
  have "concat (map (store_int_type n)
        (map (\<lambda>i. load_int_type (take n (drop (i * n) xs)) :: 'w word) [0 ..< k])) =
      concat (map (\<lambda>i. store_int_type n (load_int_type (take n (drop (i * n) xs)) :: 'w word))
        [0 ..< k])"
    by (simp add: comp_def)
  also have "\<dots> = concat (map (\<lambda>i. take n (drop (i * n) xs)) [0 ..< k])"
    by (simp only: m)
  also have "\<dots> = xs"
    by (rule concat_chunks [OF n l])
  finally show ?thesis .
qed

text \<open>
  C9: with \<open>len = sizeof(int_type) * size()\<close> (both positive), \<open>raw_seed\<close> fails
  with the error whose argument is \<open>len\<close> when the buffer is empty or its length is
  not a multiple of \<open>len\<close>; for every buffer whose length is a positive multiple of
  \<open>len\<close> it returns \<open>length / sizeof(int_type)\<close> integers, that is \<open>length / len\<close>
  states of \<open>size()\<close> integers each, and these are the integers packed in the
  buffer: their bytes, \<open>sizeof(int_type)\<close> for each integer of \<open>8 * sizeof(int_type)\<close>
  bits, one integer after the other, are the buffer.
\<close>

theorem raw_seed_length:
  assumes "0 < sizeof_int_type" and "0 < state_size"
  shows "(length seed_data = 0 \<or> \<not> sizeof_int_type * state_size dvd length seed_data \<longrightarrow>
            (raw_seed sizeof_int_type state_size seed_data :: r_error + 'w::len word list) =
              Inl (cpp11_stop raw_seed_format [sizeof_int_type * state_size])) \<and>
         (0 < length seed_data \<and> sizeof_int_type * state_size dvd length seed_data \<longrightarrow>
            (\<exists>seed :: 'w word list.
               raw_seed sizeof_int_type state_size seed_data = Inr seed \<and>
               length seed = length seed_data div sizeof_int_type \<and>
               length seed = length seed_data div (sizeof_int_type * state_size) * state_size \<and>
               (LENGTH('w) = 8 * sizeof_int_type \<longrightarrow>
                  concat (map (store_int_type sizeof_int_type) seed) = seed_data)))"
proof (intro conjI impI)
  assume "length seed_data = 0 \<or> \<not> sizeof_int_type * state_size dvd length seed_data"
  then have "length seed_data = 0 \<or> length seed_data mod (sizeof_int_type * state_size) \<noteq> 0"
    by (auto simp: dvd_eq_mod_eq_0)
  then show "(raw_seed sizeof_int_type state_size seed_data :: r_error + 'w word list) =
      Inl (cpp11_stop raw_seed_format [sizeof_int_type * state_size])"
    by (rule raw_seed_error)
next
  assume a: "0 < length seed_data \<and> sizeof_int_type * state_size dvd length seed_data"
  then obtain k where k: "length seed_data = sizeof_int_type * state_size * k"
    by (auto simp: dvd_def)
  have m: "length seed_data mod (sizeof_int_type * state_size) = 0"
    using a by (simp add: dvd_eq_mod_eq_0)
  define seed :: "'w word list" where
    "seed = map (\<lambda>i. load_int_type (take sizeof_int_type (drop (i * sizeof_int_type) seed_data)))
       [0 ..< length seed_data div sizeof_int_type]"
  have s: "raw_seed sizeof_int_type state_size seed_data = Inr seed"
    unfolding seed_def using a m by (intro raw_seed_ok) simp_all
  have d1: "length seed_data div sizeof_int_type = state_size * k"
    using assms k by simp
  have d2: "length seed_data div (sizeof_int_type * state_size) = k"
    using assms k by simp
  have l1: "length seed = length seed_data div sizeof_int_type"
    by (simp add: seed_def)
  have l2: "length seed = length seed_data div (sizeof_int_type * state_size) * state_size"
    unfolding l1 d1 d2 by (simp add: mult.commute)
  have bytes: "concat (map (store_int_type sizeof_int_type) seed) = seed_data"
    if w: "LENGTH('w) = 8 * sizeof_int_type"
  proof -
    have "length seed_data = (state_size * k) * sizeof_int_type"
      using k by (simp add: mult.commute mult.left_commute)
    from raw_seed_bytes [OF assms(1) w this] show ?thesis
      unfolding seed_def d1 .
  qed
  from s l1 l2 bytes show "\<exists>seed :: 'w word list.
      raw_seed sizeof_int_type state_size seed_data = Inr seed \<and>
      length seed = length seed_data div sizeof_int_type \<and>
      length seed = length seed_data div (sizeof_int_type * state_size) * state_size \<and>
      (LENGTH('w) = 8 * sizeof_int_type \<longrightarrow>
         concat (map (store_int_type sizeof_int_type) seed) = seed_data)"
    by blast
qed

text \<open>
  For a generator of four 64-bit words (\<open>len = 32\<close>): 31 bytes and no bytes fail, 64
  bytes give 8 integers, two states, whose bytes are the 64 bytes. For a generator
  of two 32-bit words, the bytes \<open>01 00 00 00 00 01 00 00\<close> give the integers 1 and
  256.
\<close>

theorem raw_seed_length_witness:
  "(0::nat) < 8 \<and> (0::nat) < 4 \<and> LENGTH(64) = 8 * 8 \<and>
   (raw_seed 8 4 (replicate 31 1) :: r_error + 64 word list) =
     Inl (cpp11_stop raw_seed_format [32]) \<and>
   (raw_seed 8 4 [] :: r_error + 64 word list) = Inl (cpp11_stop raw_seed_format [32]) \<and>
   (\<exists>seed :: 64 word list. raw_seed 8 4 (replicate 64 1) = Inr seed \<and> length seed = 8 \<and>
      length seed = 2 * 4 \<and> concat (map (store_int_type 8) seed) = replicate 64 1) \<and>
   (raw_seed 4 2 [1, 0, 0, 0, 0, 1, 0, 0] :: r_error + 32 word list) = Inr [1, 256] \<and>
   concat (map (store_int_type 4) [1, 256 :: 32 word]) = [1, 0, 0, 0, 0, 1, 0, 0]"
proof -
  have p8: "(0::nat) < 8" and p4: "(0::nat) < 4" and p2: "(0::nat) < 2"
    by simp_all
  have len: "length [1, 0, 0, 0, 0, 1, 0, 0 :: 8 word] = 8"
    by simp
  have "\<exists>seed :: 32 word list. raw_seed 4 2 [1, 0, 0, 0, 0, 1, 0, 0] = Inr seed \<and>
      concat (map (store_int_type 4) seed) = [1, 0, 0, 0, 0, 1, 0, 0]"
    using raw_seed_length [OF p4 p2, of "[1, 0, 0, 0, 0, 1, 0, 0]", where 'w = 32, unfolded len]
    by auto
  then have small: "concat (map (store_int_type 4) [1, 256 :: 32 word]) = [1, 0, 0, 0, 0, 1, 0, 0]"
    unfolding raw_seed_example by simp
  show ?thesis
    using raw_seed_length [OF p8 p4, of "replicate 31 1", where 'w = 64]
      raw_seed_length [OF p8 p4, of "[]", where 'w = 64]
      raw_seed_length [OF p8 p4, of "replicate 64 1", where 'w = 64]
      small raw_seed_example
    by simp
qed

end
